theory Spec2Isabelle
  imports Complex_Main
begin

section \<open>The light pipeline of the WebGL renderer\<close>

text \<open>
  A shallow embedding of \<^verbatim>\<open>src/renderer/webgl/pipelines/LightPipeline.js\<close>. The pipeline
  object is a record that every method takes and returns. Numbers are values of a type
  \<open>'n\<close>; the batching code only multiplies and subtracts them, so it is modelled for any
  type with these operations, and the rotation code, which calls \<^verbatim>\<open>Math.cos\<close> and
  \<^verbatim>\<open>Math.sin\<close>, is modelled over \<^typ>\<open>real\<close>. A number written to a typed array is
  identified with the element that is read back.
\<close>

subsection \<open>Lights and cameras\<close>

record 'n color =
  color_r :: 'n
  color_g :: 'n
  color_b :: 'n

text \<open>
  The fields of a light. \<^verbatim>\<open>batchLight\<close> reads \<^verbatim>\<open>color\<close>, \<^verbatim>\<open>intensity\<close>,
  \<^verbatim>\<open>radius\<close> and \<^verbatim>\<open>alpha\<close>.
\<close>

record 'n light =
  light_x :: 'n
  light_y :: 'n
  light_radius :: 'n
  light_color :: "'n color"
  light_r :: 'n
  light_g :: 'n
  light_b :: 'n
  light_intensity :: 'n
  light_alpha :: 'n
  light_scrollFactorX :: 'n
  light_scrollFactorY :: 'n
  light_dirty :: bool

text \<open>
  A camera. \<^verbatim>\<open>camera.matrix.transformPoint\<close> belongs to the class TransformMatrix, which
  is outside this file: the camera carries it as a function from a point to a point.
\<close>

record 'n camera =
  camera_alpha :: 'n
  camera_x :: 'n
  camera_y :: 'n
  camera_rotation :: 'n
  camera_zoom :: 'n
  camera_scrollX :: 'n
  camera_scrollY :: 'n
  camera_dirty :: bool
  camera_matrix :: "'n \<Rightarrow> 'n \<Rightarrow> 'n \<times> 'n"

subsection \<open>The rendering context\<close>

text \<open>
  The uniforms of the light shader. The source names a field of a light slot by the string
  \<^verbatim>\<open>'uLights[' + i + '].radius'\<close>; the model names it \<open>ULights i Radius\<close>.
\<close>

datatype light_field = Position | Color | Intensity | Radius

datatype uniform =
    UInverseRotationMatrix
  | UCamera
  | UAmbientLightColor
  | ULights nat light_field

text \<open>
  What the pipeline asks of the renderer and of the rendering context, in the order it asks:
  a draw of the vertices of a flushed batch, and the uniform uploads.
\<close>

datatype 'n gl_call =
    DrawArrays "'n list"
  | SetFloat1 uniform 'n
  | SetFloat2 uniform 'n 'n
  | SetFloat3 uniform 'n 'n 'n
  | SetFloat4 uniform 'n 'n 'n 'n
  | SetMatrix3 uniform bool "'n list"

record texImage =
  tex_width :: nat
  tex_height :: nat
  tex_pixels :: "nat list"

text \<open>
  The context: the calls made so far, the textures created so far (a texture handle is its
  index; \<open>None\<close> is a texture with no image yet), the active texture unit and the texture
  bound to \<^verbatim>\<open>TEXTURE_2D\<close> on each unit.
\<close>

record 'n gl_context =
  gl_calls :: "'n gl_call list"
  gl_textures :: "texImage option list"
  gl_activeTexture :: nat
  gl_texture2D :: "nat \<Rightarrow> nat option"

definition gl_call :: "'n gl_call \<Rightarrow> 'n gl_context \<Rightarrow> 'n gl_context" where
  "gl_call c g = g\<lparr>gl_calls := gl_calls g @ [c]\<rparr>"

definition createTexture :: "'n gl_context \<Rightarrow> nat \<times> 'n gl_context" where
  "createTexture g = (length (gl_textures g), g\<lparr>gl_textures := gl_textures g @ [None]\<rparr>)"

definition activeTexture :: "nat \<Rightarrow> 'n gl_context \<Rightarrow> 'n gl_context" where
  "activeTexture unit g = g\<lparr>gl_activeTexture := unit\<rparr>"

definition bindTexture :: "nat \<Rightarrow> 'n gl_context \<Rightarrow> 'n gl_context" where
  "bindTexture t g = g\<lparr>gl_texture2D := (gl_texture2D g)(gl_activeTexture g := Some t)\<rparr>"

definition texImage2D :: "nat \<Rightarrow> nat \<Rightarrow> nat list \<Rightarrow> 'n gl_context \<Rightarrow> 'n gl_context" where
  "texImage2D w h px g =
     (case gl_texture2D g (gl_activeTexture g) of
        None \<Rightarrow> g
      | Some t \<Rightarrow>
          if t < length (gl_textures g)
          then g\<lparr>gl_textures := (gl_textures g)
                   [t := Some \<lparr>tex_width = w, tex_height = h, tex_pixels = px\<rparr>]\<rparr>
          else g)"

subsection \<open>The pipeline object\<close>

text \<open>
  \<open>defaultNormalMap\<close> is an object with the one property \<^verbatim>\<open>glTexture\<close>, so the model
  holds the handle; \<open>None\<close> is \<^verbatim>\<open>undefined\<close>, its value until \<^verbatim>\<open>boot\<close>.
  \<open>currentNormalMapRotation\<close> is \<^verbatim>\<open>undefined\<close> (or \<^verbatim>\<open>null\<close>) until the first rotation is
  applied. \<open>vertexViewF32\<close>, \<open>vertexCount\<close>, \<open>vertexCapacity\<close> and the current shader's
  \<open>vertexComponentCount\<close> are fields of the base class WebGLPipeline.
\<close>

record 'n pipeline =
  vertexViewF32 :: "'n list"
  vertexCount :: nat
  vertexCapacity :: nat
  vertexComponentCount :: nat
  inverseRotationMatrix :: "'n list"
  defaultNormalMap :: "nat option"
  lightCount :: nat
  forceZero :: bool
  currentNormalMapRotation :: "'n option"
  active :: bool
  renderer_height :: 'n
  gl :: "'n gl_context"

text \<open>
  A store into a typed array: an index outside the array is ignored, the array never grows.
\<close>

definition f32_set :: "'n list \<Rightarrow> int \<Rightarrow> 'n \<Rightarrow> 'n list" where
  "f32_set view i v = (if 0 \<le> i \<and> i < int (length view) then view[nat i := v] else view)"

subsection \<open>batchVert\<close>

text \<open>
  \<^verbatim>\<open>vertexOffset\<close> starts one below the first slot of the vertex and is incremented before
  each store; \<^verbatim>\<open>vertexCount\<close> is incremented last.
\<close>

definition batchVert ::
  "'n \<Rightarrow> 'n \<Rightarrow> 'n \<Rightarrow> 'n \<Rightarrow> 'n \<Rightarrow> 'n \<Rightarrow> 'n \<Rightarrow> 'n \<Rightarrow> 'n \<Rightarrow> 'n pipeline \<Rightarrow> 'n pipeline" where
  "batchVert x y lightX lightY radius r g b a s =
     (let view0 = vertexViewF32 s;
          vertexOffset = int (vertexCount s * vertexComponentCount s) - 1;
          view1 = f32_set view0 (vertexOffset + 1) x;
          view2 = f32_set view1 (vertexOffset + 2) y;
          view3 = f32_set view2 (vertexOffset + 3) lightX;
          view4 = f32_set view3 (vertexOffset + 4) lightY;
          view5 = f32_set view4 (vertexOffset + 5) radius;
          view6 = f32_set view5 (vertexOffset + 6) r;
          view7 = f32_set view6 (vertexOffset + 7) g;
          view8 = f32_set view7 (vertexOffset + 8) b;
          view9 = f32_set view8 (vertexOffset + 9) a
      in s\<lparr>vertexViewF32 := view9, vertexCount := vertexCount s + 1\<rparr>)"

subsection \<open>Flushing\<close>

text \<open>
  Modelled from the spec: \<^verbatim>\<open>shouldFlush\<close> and \<^verbatim>\<open>flush\<close> are methods of the base class
  WebGLPipeline, which is not among the sources. The spec has the batcher "check whether
  the batch buffer has room for 6 more vertices", and a flush is "submitting all currently
  accumulated batched vertices as one GPU draw call and resetting the buffer write cursor".
\<close>

definition shouldFlush :: "nat \<Rightarrow> 'n pipeline \<Rightarrow> bool" where
  "shouldFlush amount s = (vertexCount s + amount > vertexCapacity s)"

text \<open>The accumulated vertices: the slots of the buffer below the write cursor.\<close>

definition pending :: "'n pipeline \<Rightarrow> 'n list" where
  "pending s = take (vertexCount s * vertexComponentCount s) (vertexViewF32 s)"

text \<open>
  Modelled from the spec: \<^verbatim>\<open>flush\<close> of the base class WebGLPipeline (see above).
\<close>

definition flush :: "'n pipeline \<Rightarrow> 'n pipeline" where
  "flush s = s\<lparr>gl := gl_call (DrawArrays (pending s)) (gl s), vertexCount := 0\<rparr>"

subsection \<open>batchLight\<close>

definition batchLight ::
  "'n::times light \<Rightarrow> 'n camera \<Rightarrow> 'n \<Rightarrow> 'n \<Rightarrow> 'n \<Rightarrow> 'n \<Rightarrow> 'n \<Rightarrow> 'n \<Rightarrow> 'n \<Rightarrow> 'n \<Rightarrow> 'n \<Rightarrow> 'n
     \<Rightarrow> 'n pipeline \<Rightarrow> 'n pipeline" where
  "batchLight light camera x0 y0 x1 y1 x2 y2 x3 y3 lightX lightY s =
     (let color = light_color light;
          intensity = light_intensity light;
          radius = light_radius light;
          r = color_r color * intensity;
          g = color_g color * intensity;
          b = color_b color * intensity;
          a = camera_alpha camera * light_alpha light;
          s0 = (if shouldFlush 6 s then flush s else s);
          s1 = batchVert x0 y0 lightX lightY radius r g b a s0;
          s2 = batchVert x1 y1 lightX lightY radius r g b a s1;
          s3 = batchVert x2 y2 lightX lightY radius r g b a s2;
          s4 = batchVert x0 y0 lightX lightY radius r g b a s3;
          s5 = batchVert x2 y2 lightX lightY radius r g b a s4;
          s6 = batchVert x3 y3 lightX lightY radius r g b a s5
      in s6)"

text \<open>One call of \<^verbatim>\<open>batchLight\<close> with its arguments, and a sequence of calls.\<close>

datatype 'n lightQuad =
  LightQuad "'n light" "'n camera" 'n 'n 'n 'n 'n 'n 'n 'n 'n 'n

fun batchLightQuad :: "'n::times lightQuad \<Rightarrow> 'n pipeline \<Rightarrow> 'n pipeline" where
  "batchLightQuad (LightQuad light camera x0 y0 x1 y1 x2 y2 x3 y3 lightX lightY) s =
     batchLight light camera x0 y0 x1 y1 x2 y2 x3 y3 lightX lightY s"

fun batchLights :: "'n::times lightQuad list \<Rightarrow> 'n pipeline \<Rightarrow> 'n pipeline" where
  "batchLights [] s = s"
| "batchLights (q # qs) s = batchLights qs (batchLightQuad q s)"

text \<open>
  What the spec asks of one call, in its words: six vertices, the two triangles
  \<open>corner0, corner1, corner2\<close> and \<open>corner0, corner2, corner3\<close>, each vertex the nine fields
  position, light position, light radius and the premultiplied colour.
\<close>

definition spec_vertex :: "'n::times light \<Rightarrow> 'n camera \<Rightarrow> 'n \<Rightarrow> 'n \<Rightarrow> 'n \<times> 'n \<Rightarrow> 'n list" where
  "spec_vertex light camera lightX lightY corner =
     [fst corner, snd corner, lightX, lightY, light_radius light,
      color_r (light_color light) * light_intensity light,
      color_g (light_color light) * light_intensity light,
      color_b (light_color light) * light_intensity light,
      camera_alpha camera * light_alpha light]"

fun spec_quad :: "'n::times lightQuad \<Rightarrow> 'n list" where
  "spec_quad (LightQuad light camera x0 y0 x1 y1 x2 y2 x3 y3 lightX lightY) =
     concat (map (spec_vertex light camera lightX lightY)
       [(x0, y0), (x1, y1), (x2, y2), (x0, y0), (x2, y2), (x3, y3)])"

text \<open>
  The vertex layout that the constructor declares (name and number of floats of each
  attribute), and the buffer it asks the base class for: the stride is the sum of the
  attribute sizes, and the buffer holds \<open>vertexCapacity\<close> vertices.
\<close>

definition attributes :: "(string \<times> nat) list" where
  "attributes =
     [(''inPosition'', 2), (''inLightPosition'', 2), (''inLightRadius'', 1), (''inLightColor'', 4)]"

definition buffer_ok :: "'n pipeline \<Rightarrow> bool" where
  "buffer_ok s =
     (vertexComponentCount s = sum_list (map snd attributes) \<and>
      length (vertexViewF32 s) = vertexCapacity s * vertexComponentCount s)"

text \<open>The \<open>i\<close>-th vertex of the buffer: its nine floats.\<close>

definition vertex :: "'n pipeline \<Rightarrow> nat \<Rightarrow> 'n list" where
  "vertex s i = take 9 (drop (i * vertexComponentCount s) (vertexViewF32 s))"

subsection \<open>The constructor and boot\<close>

text \<open>
  The constructor, from the object that the base class's constructor leaves: the fields
  that LightPipeline adds. Nothing assigns \<^verbatim>\<open>currentNormalMapRotation\<close> or
  \<^verbatim>\<open>defaultNormalMap\<close> here, so they read \<^verbatim>\<open>undefined\<close>.
\<close>

definition LightPipeline :: "'n::{zero,one} pipeline \<Rightarrow> 'n pipeline" where
  "LightPipeline base =
     base\<lparr>inverseRotationMatrix := [1, 0, 0, 0, 1, 0, 0, 0, 1],
          defaultNormalMap := None,
          lightCount := 0,
          forceZero := True,
          currentNormalMapRotation := None\<rparr>"

text \<open>
  \<^verbatim>\<open>boot\<close>: the part after the base class's boot. It creates a texture, binds it on unit 0
  and gives it a 1 by 1 image of the four bytes 127, 127, 255, 255. The two shader fields it
  also sets are read by no method of this file and are left out.
\<close>

definition boot :: "'n pipeline \<Rightarrow> 'n pipeline" where
  "boot s =
     (let (tempTexture, g1) = createTexture (gl s);
          g2 = activeTexture 0 g1;
          g3 = bindTexture tempTexture g2;
          g4 = texImage2D 1 1 [127, 127, 255, 255] g3
      in s\<lparr>gl := g4, defaultNormalMap := Some tempTexture\<rparr>)"

subsection \<open>setNormalMapRotation\<close>

text \<open>
  \<^verbatim>\<open>rotation !== this.currentNormalMapRotation\<close> holds when no rotation was applied yet.
  The test \<^verbatim>\<open>if (rotation)\<close> of a number is that it is not 0 (a real is never NaN).
  In \<^verbatim>\<open>a[0] = a[4] = c\<close> the store to index 4 comes first.
\<close>

definition setNormalMapRotation :: "real \<Rightarrow> real pipeline \<Rightarrow> real pipeline" where
  "setNormalMapRotation rotation s =
     (if currentNormalMapRotation s \<noteq> Some rotation \<or> vertexCount s = 0
      then
        (let s1 = (if vertexCount s > 0 then flush s else s);
             m0 = inverseRotationMatrix s1;
             m = (if rotation \<noteq> 0
                  then
                    (let rot = - rotation;
                         c = cos rot;
                         sn = sin rot;
                         m1 = f32_set m0 1 sn;
                         m2 = f32_set m1 3 (- sn);
                         m3 = f32_set m2 4 c
                     in f32_set m3 0 c)
                  else
                    (let m1 = f32_set m0 4 1;
                         m2 = f32_set m1 0 1;
                         m3 = f32_set m2 3 0
                     in f32_set m3 1 0))
         in s1\<lparr>inverseRotationMatrix := m,
                gl := gl_call (SetMatrix3 UInverseRotationMatrix False m) (gl s1),
                currentNormalMapRotation := Some rotation\<rparr>)
      else s)"

text \<open>
  \<^verbatim>\<open>setMatrix3\<close> is called with \<^verbatim>\<open>transpose = false\<close>: the nine floats are the matrix
  column by column. The rows of the matrix that the shader sees:
\<close>

definition mat3_rows :: "'n list \<Rightarrow> 'n list list" where
  "mat3_rows m = [[m ! 0, m ! 3, m ! 6], [m ! 1, m ! 4, m ! 7], [m ! 2, m ! 5, m ! 8]]"

text \<open>The shape that the matrix keeps: nine floats, the last row and column those of the identity.\<close>

definition homogeneous :: "real list \<Rightarrow> bool" where
  "homogeneous m =
     (length m = 9 \<and> m ! 2 = 0 \<and> m ! 5 = 0 \<and> m ! 6 = 0 \<and> m ! 7 = 0 \<and> m ! 8 = 1)"

text \<open>The number of uploads of the rotation matrix among the calls.\<close>

fun is_rotation_upload :: "'n gl_call \<Rightarrow> bool" where
  "is_rotation_upload (SetMatrix3 u t m) = (u = UInverseRotationMatrix)"
| "is_rotation_upload _ = False"

definition rotation_uploads :: "'n pipeline \<Rightarrow> nat" where
  "rotation_uploads s = length (filter is_rotation_upload (gl_calls (gl s)))"

subsection \<open>getNormalMap\<close>

text \<open>
  A game object, as far as \<^verbatim>\<open>getNormalMap\<close> reads it. A property that is \<^verbatim>\<open>undefined\<close> or
  \<^verbatim>\<open>null\<close> is \<open>None\<close>. An element of \<^verbatim>\<open>dataSource\<close> is a texture source, held as its
  \<^verbatim>\<open>glTexture\<close>. \<^verbatim>\<open>tileset\<close> is one tileset or an array of tilesets.
\<close>

record texture =
  dataSource :: "nat option list"

record frame =
  sourceIndex :: nat

record tileset =
  tileset_image :: "texture option"

datatype tilesets = OneTileset tileset | TilesetArray "tileset list"

record gameObject =
  go_displayTexture :: "texture option"
  go_displayFrame :: "frame option"
  go_texture :: "texture option"
  go_frame :: "frame option"
  go_tileset :: "tilesets option"

datatype js_error = TypeError

text \<open>Reading an array element: \<^verbatim>\<open>undefined\<close> beyond the end.\<close>

definition array_get :: "'a option list \<Rightarrow> nat \<Rightarrow> 'a option" where
  "array_get xs i = (if i < length xs then xs ! i else None)"

text \<open>
  The branches that assign \<^verbatim>\<open>normalTexture\<close>. Reading a property of \<^verbatim>\<open>undefined\<close> or
  \<^verbatim>\<open>null\<close> (a display texture with no display frame, a texture with no frame, an empty
  array of tilesets, a tileset with no image) throws a TypeError.
\<close>

definition lookupNormalMap :: "gameObject option \<Rightarrow> 'n pipeline \<Rightarrow> js_error + nat option" where
  "lookupNormalMap gameObject s =
     (case gameObject of
        None \<Rightarrow> Inr (defaultNormalMap s)
      | Some go \<Rightarrow>
          (case go_displayTexture go of
             Some dt \<Rightarrow>
               (case go_displayFrame go of
                  None \<Rightarrow> Inl TypeError
                | Some f \<Rightarrow> Inr (array_get (dataSource dt) (sourceIndex f)))
           | None \<Rightarrow>
               (case go_texture go of
                  Some t \<Rightarrow>
                    (case go_frame go of
                       None \<Rightarrow> Inl TypeError
                     | Some f \<Rightarrow> Inr (array_get (dataSource t) (sourceIndex f)))
                | None \<Rightarrow>
                    (case go_tileset go of
                       Some (TilesetArray ts) \<Rightarrow>
                         (case ts of
                            [] \<Rightarrow> Inl TypeError
                          | t0 # _ \<Rightarrow>
                              (case tileset_image t0 of
                                 None \<Rightarrow> Inl TypeError
                               | Some img \<Rightarrow> Inr (array_get (dataSource img) 0)))
                     | Some (OneTileset t0) \<Rightarrow>
                         (case tileset_image t0 of
                            None \<Rightarrow> Inl TypeError
                          | Some img \<Rightarrow> Inr (array_get (dataSource img) 0))
                     | None \<Rightarrow> Inr None))))"

definition getNormalMap :: "gameObject option \<Rightarrow> 'n pipeline \<Rightarrow> js_error + nat" where
  "getNormalMap gameObject s =
     (case lookupNormalMap gameObject s of
        Inl e \<Rightarrow> Inl e
      | Inr found \<Rightarrow>
          (let normalTexture = (case found of None \<Rightarrow> defaultNormalMap s | Some t \<Rightarrow> Some t)
           in case normalTexture of None \<Rightarrow> Inl TypeError | Some t \<Rightarrow> Inr t))"

text \<open>
  The three resolution paths, in the spec's words: what the object's own display texture,
  its plain texture and its (first) tileset's image lead to. A path with a missing link
  leads to nothing.
\<close>

definition display_source :: "gameObject \<Rightarrow> nat option" where
  "display_source go =
     (case go_displayTexture go of
        None \<Rightarrow> None
      | Some dt \<Rightarrow>
          (case go_displayFrame go of
             None \<Rightarrow> None
           | Some f \<Rightarrow> array_get (dataSource dt) (sourceIndex f)))"

definition texture_source :: "gameObject \<Rightarrow> nat option" where
  "texture_source go =
     (case go_texture go of
        None \<Rightarrow> None
      | Some t \<Rightarrow>
          (case go_frame go of
             None \<Rightarrow> None
           | Some f \<Rightarrow> array_get (dataSource t) (sourceIndex f)))"

definition first_tileset :: "gameObject \<Rightarrow> tileset option" where
  "first_tileset go =
     (case go_tileset go of
        None \<Rightarrow> None
      | Some (OneTileset t0) \<Rightarrow> Some t0
      | Some (TilesetArray ts) \<Rightarrow> (case ts of [] \<Rightarrow> None | t0 # _ \<Rightarrow> Some t0))"

definition tileset_source :: "gameObject \<Rightarrow> nat option" where
  "tileset_source go =
     (case first_tileset go of
        None \<Rightarrow> None
      | Some t0 \<Rightarrow>
          (case tileset_image t0 of
             None \<Rightarrow> None
           | Some img \<Rightarrow> array_get (dataSource img) 0))"

definition no_normal_map :: "gameObject \<Rightarrow> bool" where
  "no_normal_map go =
     (display_source go = None \<and> texture_source go = None \<and> tileset_source go = None)"

subsection \<open>Call histories\<close>

text \<open>The calls that a method added to those of the state it started from.\<close>

definition new_calls :: "'n pipeline \<Rightarrow> 'n pipeline \<Rightarrow> 'n gl_call list" where
  "new_calls s s' = drop (length (gl_calls (gl s))) (gl_calls (gl s'))"

text \<open>
  A call of one of the methods, and the pipeline after a sequence of calls. The texts of
  \<^verbatim>\<open>onRender\<close>, \<^verbatim>\<open>setTexture2D\<close> and \<^verbatim>\<open>setGameObject\<close> stand in the source inside
  block comments (the comment that documents each of them is closed only after the body of
  the method): the class does not define these methods, and they are no calls here.
\<close>

datatype call =
    CallBatchVert real real real real real real real real real
  | CallBatchLight "real lightQuad"
  | CallFlush
  | CallBoot
  | CallSetNormalMapRotation real

fun exec :: "call \<Rightarrow> real pipeline \<Rightarrow> real pipeline" where
  "exec (CallBatchVert x y lightX lightY radius r g b a) s =
     batchVert x y lightX lightY radius r g b a s"
| "exec (CallBatchLight q) s = batchLightQuad q s"
| "exec CallFlush s = flush s"
| "exec CallBoot s = boot s"
| "exec (CallSetNormalMapRotation rotation) s = setNormalMapRotation rotation s"

fun run :: "call list \<Rightarrow> real pipeline \<Rightarrow> real pipeline" where
  "run [] s = s"
| "run (c # cs) s = run cs (exec c s)"

text \<open>The array with the slots from \<open>off\<close> on overwritten by \<open>vs\<close>.\<close>

definition overwrite :: "'n list \<Rightarrow> nat \<Rightarrow> 'n list \<Rightarrow> 'n list" where
  "overwrite view off vs = take off view @ vs @ drop (off + length vs) view"

subsection \<open>Example objects\<close>

text \<open>
  Modelled from the spec: the object that the constructor of the base class WebGLPipeline,
  which is not among the sources, leaves for a capacity in vertices. The spec has a "shared
  buffer" written "at \<open>vertexIndex \<times> stride\<close>" and a batch buffer that is "a bounded-capacity
  sequence of Vertex records": an all-zero buffer of \<open>capacity\<close> vertices of the declared
  layout, nothing batched, and a context in which nothing has happened yet.
\<close>

definition base_pipeline :: "nat \<Rightarrow> 'n::zero \<Rightarrow> 'n pipeline" where
  "base_pipeline capacity height =
     \<lparr>vertexViewF32 = replicate (capacity * sum_list (map snd attributes)) 0,
      vertexCount = 0,
      vertexCapacity = capacity,
      vertexComponentCount = sum_list (map snd attributes),
      inverseRotationMatrix = [],
      defaultNormalMap = None,
      lightCount = 0,
      forceZero = False,
      currentNormalMapRotation = None,
      active = False,
      renderer_height = height,
      gl = \<lparr>gl_calls = [], gl_textures = [], gl_activeTexture = 0,
             gl_texture2D = (\<lambda>unit. None)\<rparr>\<rparr>"

definition sample_light :: "int light" where
  "sample_light =
     \<lparr>light_x = 10, light_y = 20, light_radius = 50,
      light_color = \<lparr>color_r = 2, color_g = 3, color_b = 5\<rparr>,
      light_r = 2, light_g = 3, light_b = 5,
      light_intensity = 7, light_alpha = 11,
      light_scrollFactorX = 1, light_scrollFactorY = 1, light_dirty = True\<rparr>"

definition sample_camera :: "int camera" where
  "sample_camera =
     \<lparr>camera_alpha = 13, camera_x = 0, camera_y = 0, camera_rotation = 0, camera_zoom = 2,
      camera_scrollX = 3, camera_scrollY = 4, camera_dirty = False,
      camera_matrix = (\<lambda>x y. (x + 1, y + 2))\<rparr>"

definition sample_quad :: "int lightQuad" where
  "sample_quad = LightQuad sample_light sample_camera 0 0 1 0 1 1 0 1 40 60"

text \<open>
  The matrix that the spec asks for, by rows: the rotation by the negative of the angle in
  the top-left 2 by 2 block, and 1 as the remaining diagonal entry.
\<close>

definition spec_inverse_rotation :: "real \<Rightarrow> real list list" where
  "spec_inverse_rotation angle =
     [[cos (- angle), - sin (- angle), 0],
      [sin (- angle), cos (- angle), 0],
      [0, 0, 1]]"

text \<open>A pipeline fresh from the constructor, with room for two quads.\<close>

definition fresh_pipeline :: "real pipeline" where
  "fresh_pipeline = LightPipeline (base_pipeline 12 600)"

text \<open>The nine floats of this matrix as \<^verbatim>\<open>setMatrix3\<close> takes them, column by column.\<close>

definition inverse_rotation_floats :: "real \<Rightarrow> real list" where
  "inverse_rotation_floats angle =
     [cos (- angle), sin (- angle), 0, - sin (- angle), cos (- angle), 0, 0, 0, 1]"

text \<open>
  Scenario C of the spec: the rotation 0 is applied, and then the six vertices of one quad
  are batched.
\<close>

definition unit_quad :: "real lightQuad" where
  "unit_quad =
     LightQuad
       \<lparr>light_x = 0, light_y = 0, light_radius = 1,
        light_color = \<lparr>color_r = 1, color_g = 1, color_b = 1\<rparr>,
        light_r = 1, light_g = 1, light_b = 1, light_intensity = 1, light_alpha = 1,
        light_scrollFactorX = 1, light_scrollFactorY = 1, light_dirty = False\<rparr>
       \<lparr>camera_alpha = 1, camera_x = 0, camera_y = 0, camera_rotation = 0, camera_zoom = 1,
        camera_scrollX = 0, camera_scrollY = 0, camera_dirty = False,
        camera_matrix = (\<lambda>x y. (x, y))\<rparr>
       0 0 1 0 1 1 0 1 0 0"

definition scenario_C :: "call list" where
  "scenario_C = [CallSetNormalMapRotation 0, CallBatchLight unit_quad]"

text \<open>The image that \<^verbatim>\<open>boot\<close> gives the default normal map.\<close>

definition flat_normal :: texImage where
  "flat_normal = \<lparr>tex_width = 1, tex_height = 1, tex_pixels = [127, 127, 255, 255]\<rparr>"

text \<open>A sprite whose texture has no data source.\<close>

definition plain_sprite :: gameObject where
  "plain_sprite =
     \<lparr>go_displayTexture = None, go_displayFrame = None,
      go_texture = Some \<lparr>dataSource = []\<rparr>, go_frame = Some \<lparr>sourceIndex = 0\<rparr>,
      go_tileset = None\<rparr>"

text \<open>A tilemap layer whose one tileset has an image with no data source.\<close>

definition layer_without_source :: gameObject where
  "layer_without_source =
     \<lparr>go_displayTexture = None, go_displayFrame = None, go_texture = None, go_frame = None,
      go_tileset = Some (TilesetArray [\<lparr>tileset_image = Some \<lparr>dataSource = []\<rparr>\<rparr>])\<rparr>"

text \<open>A tilemap layer whose one tileset has no image.\<close>

definition layer_without_image :: gameObject where
  "layer_without_image =
     \<lparr>go_displayTexture = None, go_displayFrame = None, go_texture = None, go_frame = None,
      go_tileset = Some (TilesetArray [\<lparr>tileset_image = None\<rparr>])\<rparr>"

section \<open>Properties\<close>

lemma f32_set_in_range:
  "i < length view \<Longrightarrow> f32_set view (int i) v = view[i := v]"
  by (simp add: f32_set_def)

lemma length_f32_set [simp]: "length (f32_set view i v) = length view"
  by (simp add: f32_set_def)

lemma overwrite_snoc:
  assumes "off + length vs < length view"
  shows "(overwrite view off vs)[off + length vs := v] = overwrite view off (vs @ [v])"
proof -
  have d: "drop (off + length vs) view = view ! (off + length vs) # drop (Suc (off + length vs)) view"
    using assms by (simp add: Cons_nth_drop_Suc)
  have "(overwrite view off vs)[off + length vs := v]
        = take off view @ (vs @ drop (off + length vs) view)[length vs := v]"
    using assms by (simp add: overwrite_def list_update_append)
  also have "\<dots> = take off view @ vs @ (drop (off + length vs) view)[0 := v]"
    by (simp add: list_update_append)
  also have "\<dots> = overwrite view off (vs @ [v])"
    by (simp add: d overwrite_def)
  finally show ?thesis .
qed

lemma length_overwrite:
  "off + length vs \<le> length view \<Longrightarrow> length (overwrite view off vs) = length view"
  by (simp add: overwrite_def)

lemma overwrite_Nil: "overwrite view off [] = view"
  by (simp add: overwrite_def)

lemma f32_set_overwrite:
  assumes "off + length vs < length view"
  shows "f32_set (overwrite view off vs) (int off + int (length vs)) v
         = overwrite view off (vs @ [v])"
proof -
  have "f32_set (overwrite view off vs) (int (off + length vs)) v
        = (overwrite view off vs)[off + length vs := v]"
    using assms by (intro f32_set_in_range) (simp add: length_overwrite)
  then show ?thesis
    using assms by (simp add: overwrite_snoc)
qed

lemma batchVert_room:
  assumes "vertexCount s * vertexComponentCount s + 9 \<le> length (vertexViewF32 s)"
  shows "batchVert x y lightX lightY radius r g b a s =
         s\<lparr>vertexViewF32 := overwrite (vertexViewF32 s) (vertexCount s * vertexComponentCount s)
                               [x, y, lightX, lightY, radius, r, g, b, a],
           vertexCount := vertexCount s + 1\<rparr>"
proof -
  define off where "off = vertexCount s * vertexComponentCount s"
  define view where "view = vertexViewF32 s"
  have room: "off + 9 \<le> length view"
    using assms by (simp add: off_def view_def)
  have step: "f32_set (overwrite view off vs) (int off + int (length vs)) v
              = overwrite view off (vs @ [v])" if "length vs < 9" for vs v
    using that room by (intro f32_set_overwrite) simp
  have 1: "f32_set view (int off) x = overwrite view off [x]"
    using step [of "[]" x] by (simp add: overwrite_Nil)
  have 2: "f32_set (overwrite view off [x]) (1 + int off) y = overwrite view off [x, y]"
    using step [of "[x]" y] by (simp add: add.commute)
  have 3: "f32_set (overwrite view off [x, y]) (2 + int off) lightX
           = overwrite view off [x, y, lightX]"
    using step [of "[x, y]" lightX] by (simp add: add.commute)
  have 4: "f32_set (overwrite view off [x, y, lightX]) (3 + int off) lightY
           = overwrite view off [x, y, lightX, lightY]"
    using step [of "[x, y, lightX]" lightY] by (simp add: add.commute)
  have 5: "f32_set (overwrite view off [x, y, lightX, lightY]) (4 + int off) radius
           = overwrite view off [x, y, lightX, lightY, radius]"
    using step [of "[x, y, lightX, lightY]" radius] by (simp add: add.commute)
  have 6: "f32_set (overwrite view off [x, y, lightX, lightY, radius]) (5 + int off) r
           = overwrite view off [x, y, lightX, lightY, radius, r]"
    using step [of "[x, y, lightX, lightY, radius]" r] by (simp add: add.commute)
  have 7: "f32_set (overwrite view off [x, y, lightX, lightY, radius, r]) (6 + int off) g
           = overwrite view off [x, y, lightX, lightY, radius, r, g]"
    using step [of "[x, y, lightX, lightY, radius, r]" g] by (simp add: add.commute)
  have 8: "f32_set (overwrite view off [x, y, lightX, lightY, radius, r, g]) (7 + int off) b
           = overwrite view off [x, y, lightX, lightY, radius, r, g, b]"
    using step [of "[x, y, lightX, lightY, radius, r, g]" b] by (simp add: add.commute)
  have 9: "f32_set (overwrite view off [x, y, lightX, lightY, radius, r, g, b]) (8 + int off) a
           = overwrite view off [x, y, lightX, lightY, radius, r, g, b, a]"
    using step [of "[x, y, lightX, lightY, radius, r, g, b]" a] by (simp add: add.commute)
  show ?thesis
    unfolding batchVert_def Let_def
    by (simp add: off_def [symmetric] view_def [symmetric] 1 2 3 4 5 6 7 8 9)
qed

lemma drop_overwrite:
  "off \<le> length view \<Longrightarrow> drop (off + j) (overwrite view off vs) =
     drop j vs @ drop (off + length vs) view" if "j \<le> length vs"
  using that by (simp add: overwrite_def)

lemma segment_overwrite:
  assumes "off \<le> length view"
  shows "take (length vs) (drop off (overwrite view off vs)) = vs"
  using drop_overwrite [of 0 vs off view] assms by simp

lemma overwrite_overwrite:
  assumes "off + length vs \<le> length view"
  shows "overwrite (overwrite view off vs) (off + length vs) ws = overwrite view off (vs @ ws)"
  using assms by (simp add: overwrite_def ac_simps)

lemma batchVert_after:
  assumes stride: "vertexComponentCount s = 9"
    and len: "length vs = 9 * k"
    and room: "(vertexCount s + k) * 9 + 9 \<le> length (vertexViewF32 s)"
  shows "batchVert x y lightX lightY radius r g b a
           (s\<lparr>vertexViewF32 := overwrite (vertexViewF32 s) (vertexCount s * 9) vs,
              vertexCount := vertexCount s + k\<rparr>)
         = s\<lparr>vertexViewF32 := overwrite (vertexViewF32 s) (vertexCount s * 9)
                                 (vs @ [x, y, lightX, lightY, radius, r, g, b, a]),
             vertexCount := vertexCount s + (k + 1)\<rparr>"
proof -
  let ?t = "s\<lparr>vertexViewF32 := overwrite (vertexViewF32 s) (vertexCount s * 9) vs,
               vertexCount := vertexCount s + k\<rparr>"
  have fits: "vertexCount s * 9 + length vs \<le> length (vertexViewF32 s)"
    using len room by simp
  have "vertexCount ?t * vertexComponentCount ?t + 9 \<le> length (vertexViewF32 ?t)"
    using room fits by (simp add: stride length_overwrite)
  then have "batchVert x y lightX lightY radius r g b a ?t =
             ?t\<lparr>vertexViewF32 := overwrite (vertexViewF32 ?t)
                    (vertexCount ?t * vertexComponentCount ?t)
                    [x, y, lightX, lightY, radius, r, g, b, a],
                vertexCount := vertexCount ?t + 1\<rparr>"
    by (rule batchVert_room)
  moreover have "overwrite (overwrite (vertexViewF32 s) (vertexCount s * 9) vs)
                   ((vertexCount s + k) * 9) [x, y, lightX, lightY, radius, r, g, b, a]
                 = overwrite (vertexViewF32 s) (vertexCount s * 9)
                     (vs @ [x, y, lightX, lightY, radius, r, g, b, a])"
    using overwrite_overwrite [OF fits] len by (simp add: algebra_simps)
  ultimately show ?thesis
    by (simp add: stride)
qed

lemma six_batchVert:
  assumes stride: "vertexComponentCount s = 9"
    and room: "vertexCount s * 9 + 54 \<le> length (vertexViewF32 s)"
  shows "batchVert x5 y5 lightX lightY radius r g b a
          (batchVert x4 y4 lightX lightY radius r g b a
            (batchVert x3 y3 lightX lightY radius r g b a
              (batchVert x2 y2 lightX lightY radius r g b a
                (batchVert x1 y1 lightX lightY radius r g b a
                  (batchVert x0 y0 lightX lightY radius r g b a s)))))
         = s\<lparr>vertexViewF32 := overwrite (vertexViewF32 s) (vertexCount s * 9)
                 ([x0, y0, lightX, lightY, radius, r, g, b, a] @
                  [x1, y1, lightX, lightY, radius, r, g, b, a] @
                  [x2, y2, lightX, lightY, radius, r, g, b, a] @
                  [x3, y3, lightX, lightY, radius, r, g, b, a] @
                  [x4, y4, lightX, lightY, radius, r, g, b, a] @
                  [x5, y5, lightX, lightY, radius, r, g, b, a]),
             vertexCount := vertexCount s + 6\<rparr>"
proof -
  let ?view = "vertexViewF32 s" and ?off = "vertexCount s * 9"
  let ?st = "\<lambda>vs k. s\<lparr>vertexViewF32 := overwrite ?view ?off vs, vertexCount := vertexCount s + k\<rparr>"
  have 0: "s = ?st [] 0"
    by (simp add: overwrite_Nil)
  have step: "batchVert x y lightX lightY radius r g b a (?st vs k)
              = ?st (vs @ [x, y, lightX, lightY, radius, r, g, b, a]) (k + 1)"
    if "length vs = 9 * k" "k < 6" for vs k x y
    using that room by (intro batchVert_after [OF stride]) simp_all
  have 1: "batchVert x0 y0 lightX lightY radius r g b a s
           = ?st [x0, y0, lightX, lightY, radius, r, g, b, a] 1"
    using step [of "[]" 0 x0 y0] 0 by simp
  have 2: "batchVert x1 y1 lightX lightY radius r g b a
             (?st [x0, y0, lightX, lightY, radius, r, g, b, a] 1)
           = ?st ([x0, y0, lightX, lightY, radius, r, g, b, a] @
                  [x1, y1, lightX, lightY, radius, r, g, b, a]) 2"
    using step [of "[x0, y0, lightX, lightY, radius, r, g, b, a]" 1 x1 y1] by simp
  have 3: "batchVert x2 y2 lightX lightY radius r g b a
             (?st ([x0, y0, lightX, lightY, radius, r, g, b, a] @
                   [x1, y1, lightX, lightY, radius, r, g, b, a]) 2)
           = ?st ([x0, y0, lightX, lightY, radius, r, g, b, a] @
                  [x1, y1, lightX, lightY, radius, r, g, b, a] @
                  [x2, y2, lightX, lightY, radius, r, g, b, a]) 3"
    using step [of "[x0, y0, lightX, lightY, radius, r, g, b, a] @
                    [x1, y1, lightX, lightY, radius, r, g, b, a]" 2 x2 y2] by simp
  have 4: "batchVert x3 y3 lightX lightY radius r g b a
             (?st ([x0, y0, lightX, lightY, radius, r, g, b, a] @
                   [x1, y1, lightX, lightY, radius, r, g, b, a] @
                   [x2, y2, lightX, lightY, radius, r, g, b, a]) 3)
           = ?st ([x0, y0, lightX, lightY, radius, r, g, b, a] @
                  [x1, y1, lightX, lightY, radius, r, g, b, a] @
                  [x2, y2, lightX, lightY, radius, r, g, b, a] @
                  [x3, y3, lightX, lightY, radius, r, g, b, a]) 4"
    using step [of "[x0, y0, lightX, lightY, radius, r, g, b, a] @
                    [x1, y1, lightX, lightY, radius, r, g, b, a] @
                    [x2, y2, lightX, lightY, radius, r, g, b, a]" 3 x3 y3] by simp
  have 5: "batchVert x4 y4 lightX lightY radius r g b a
             (?st ([x0, y0, lightX, lightY, radius, r, g, b, a] @
                   [x1, y1, lightX, lightY, radius, r, g, b, a] @
                   [x2, y2, lightX, lightY, radius, r, g, b, a] @
                   [x3, y3, lightX, lightY, radius, r, g, b, a]) 4)
           = ?st ([x0, y0, lightX, lightY, radius, r, g, b, a] @
                  [x1, y1, lightX, lightY, radius, r, g, b, a] @
                  [x2, y2, lightX, lightY, radius, r, g, b, a] @
                  [x3, y3, lightX, lightY, radius, r, g, b, a] @
                  [x4, y4, lightX, lightY, radius, r, g, b, a]) 5"
    using step [of "[x0, y0, lightX, lightY, radius, r, g, b, a] @
                    [x1, y1, lightX, lightY, radius, r, g, b, a] @
                    [x2, y2, lightX, lightY, radius, r, g, b, a] @
                    [x3, y3, lightX, lightY, radius, r, g, b, a]" 4 x4 y4] by simp
  have 6: "batchVert x5 y5 lightX lightY radius r g b a
             (?st ([x0, y0, lightX, lightY, radius, r, g, b, a] @
                   [x1, y1, lightX, lightY, radius, r, g, b, a] @
                   [x2, y2, lightX, lightY, radius, r, g, b, a] @
                   [x3, y3, lightX, lightY, radius, r, g, b, a] @
                   [x4, y4, lightX, lightY, radius, r, g, b, a]) 5)
           = ?st ([x0, y0, lightX, lightY, radius, r, g, b, a] @
                  [x1, y1, lightX, lightY, radius, r, g, b, a] @
                  [x2, y2, lightX, lightY, radius, r, g, b, a] @
                  [x3, y3, lightX, lightY, radius, r, g, b, a] @
                  [x4, y4, lightX, lightY, radius, r, g, b, a] @
                  [x5, y5, lightX, lightY, radius, r, g, b, a]) 6"
    using step [of "[x0, y0, lightX, lightY, radius, r, g, b, a] @
                    [x1, y1, lightX, lightY, radius, r, g, b, a] @
                    [x2, y2, lightX, lightY, radius, r, g, b, a] @
                    [x3, y3, lightX, lightY, radius, r, g, b, a] @
                    [x4, y4, lightX, lightY, radius, r, g, b, a]" 5 x5 y5] by simp
  show ?thesis
    by (simp only: 1 2 3 4 5 6)
qed

lemma length_spec_quad: "length (spec_quad q) = 54"
  by (cases q) (simp add: spec_vertex_def)

lemma stride_nine: "buffer_ok s \<Longrightarrow> vertexComponentCount s = 9"
  by (simp add: buffer_ok_def attributes_def)

lemma buffer_length: "buffer_ok s \<Longrightarrow> length (vertexViewF32 s) = vertexCapacity s * 9"
  by (simp add: buffer_ok_def attributes_def)

lemma batchLight_room:
  assumes ok: "buffer_ok s" and room: "\<not> shouldFlush 6 s"
  shows "batchLightQuad q s =
         s\<lparr>vertexViewF32 := overwrite (vertexViewF32 s) (vertexCount s * 9) (spec_quad q),
           vertexCount := vertexCount s + 6\<rparr>"
proof (cases q)
  case (LightQuad light camera x0 y0 x1 y1 x2 y2 x3 y3 lightX lightY)
  have stride: "vertexComponentCount s = 9"
    using ok by (rule stride_nine)
  have fits: "vertexCount s * 9 + 54 \<le> length (vertexViewF32 s)"
    using room buffer_length [OF ok] by (simp add: shouldFlush_def)
  show ?thesis
    unfolding LightQuad batchLightQuad.simps batchLight_def Let_def
    using room by (simp add: six_batchVert [OF stride fits] spec_vertex_def)
qed

lemma batchLight_flushed:
  assumes ok: "buffer_ok s" and full: "shouldFlush 6 s" and cap: "6 \<le> vertexCapacity s"
  shows "batchLightQuad q s =
         s\<lparr>vertexViewF32 := overwrite (vertexViewF32 s) 0 (spec_quad q),
           vertexCount := 6,
           gl := gl_call (DrawArrays (pending s)) (gl s)\<rparr>"
proof (cases q)
  case (LightQuad light camera x0 y0 x1 y1 x2 y2 x3 y3 lightX lightY)
  have stride: "vertexComponentCount (flush s) = 9"
    using stride_nine [OF ok] by (simp add: flush_def)
  have fits: "vertexCount (flush s) * 9 + 54 \<le> length (vertexViewF32 (flush s))"
    using cap buffer_length [OF ok] by (simp add: flush_def)
  show ?thesis
    unfolding LightQuad batchLightQuad.simps batchLight_def Let_def
    using full by (simp add: six_batchVert [OF stride fits] spec_vertex_def) (simp add: flush_def)
qed

lemma batchLights_room:
  assumes "buffer_ok s" "vertexCount s + 6 * length qs \<le> vertexCapacity s"
  shows "batchLights qs s =
         s\<lparr>vertexViewF32 := overwrite (vertexViewF32 s) (vertexCount s * 9)
                               (concat (map spec_quad qs)),
           vertexCount := vertexCount s + 6 * length qs\<rparr>"
  using assms
proof (induction qs arbitrary: s)
  case Nil
  then show ?case by (simp add: overwrite_Nil)
next
  case (Cons q qs)
  let ?s1 = "batchLightQuad q s"
  have room: "\<not> shouldFlush 6 s"
    using Cons.prems(2) by (simp add: shouldFlush_def)
  have s1: "?s1 = s\<lparr>vertexViewF32 := overwrite (vertexViewF32 s) (vertexCount s * 9) (spec_quad q),
                    vertexCount := vertexCount s + 6\<rparr>"
    using Cons.prems(1) room by (rule batchLight_room)
  have fits: "vertexCount s * 9 + length (spec_quad q) \<le> length (vertexViewF32 s)"
    using Cons.prems(2) buffer_length [OF Cons.prems(1)] by (simp add: length_spec_quad)
  have ok1: "buffer_ok ?s1"
    using Cons.prems(1) fits by (simp add: s1 buffer_ok_def length_overwrite)
  have room1: "vertexCount ?s1 + 6 * length qs \<le> vertexCapacity ?s1"
    using Cons.prems(2) by (simp add: s1)
  have "batchLights qs ?s1 =
        ?s1\<lparr>vertexViewF32 := overwrite (vertexViewF32 ?s1) (vertexCount ?s1 * 9)
                                (concat (map spec_quad qs)),
            vertexCount := vertexCount ?s1 + 6 * length qs\<rparr>"
    using ok1 room1 by (rule Cons.IH)
  moreover have "overwrite (overwrite (vertexViewF32 s) (vertexCount s * 9) (spec_quad q))
                   ((vertexCount s + 6) * 9) (concat (map spec_quad qs))
                 = overwrite (vertexViewF32 s) (vertexCount s * 9)
                     (spec_quad q @ concat (map spec_quad qs))"
    using overwrite_overwrite [OF fits] by (simp add: length_spec_quad algebra_simps)
  ultimately show ?case
    by (simp add: s1)
qed

lemma length_concat_quads: "length (concat (map spec_quad qs)) = 54 * length qs"
  by (induction qs) (simp_all add: length_spec_quad)

lemma pending_overwrite:
  assumes "vertexComponentCount s = 9" "vertexCount s * 9 \<le> length (vertexViewF32 s)"
    and "length vs = 9 * k"
  shows "pending (s\<lparr>vertexViewF32 := overwrite (vertexViewF32 s) (vertexCount s * 9) vs,
                    vertexCount := vertexCount s + k\<rparr>) = pending s @ vs"
  using assms by (simp add: pending_def overwrite_def algebra_simps)

lemma gl_batchVert [simp]: "gl (batchVert x y lightX lightY radius r g b a s) = gl s"
  by (simp add: batchVert_def Let_def)

lemma vertexCount_batchVert [simp]:
  "vertexCount (batchVert x y lightX lightY radius r g b a s) = vertexCount s + 1"
  by (simp add: batchVert_def Let_def)

lemma batchLight_flush_first:
  assumes "shouldFlush 6 s"
  shows "gl (batchLightQuad q s) = gl_call (DrawArrays (pending s)) (gl s)"
    and "vertexCount (batchLightQuad q s) = 6"
  using assms by (cases q; simp add: batchLight_def Let_def flush_def)+

text \<open>
  C1: when the buffer cannot hold six more vertices, \<^verbatim>\<open>batchLight\<close> makes one draw call, of
  the vertices that were pending before the call, and after the call the batch counts six
  vertices. With a buffer of the declared layout that holds at least one quad, these six
  vertices are the quad, whole and at the start of the buffer, within the capacity, and the
  buffer has kept its length.
\<close>

theorem batchLight_flushes_before_writing:
  assumes "shouldFlush 6 s"
  shows "let s' = batchLightQuad q s
         in gl_calls (gl s') = gl_calls (gl s) @ [DrawArrays (pending s)]
          \<and> vertexCount s' = 6
          \<and> (buffer_ok s \<and> 6 \<le> vertexCapacity s \<longrightarrow>
               pending s' = spec_quad q
             \<and> vertexCount s' \<le> vertexCapacity s'
             \<and> length (vertexViewF32 s') = length (vertexViewF32 s))"
proof -
  have "pending (batchLightQuad q s) = spec_quad q
      \<and> vertexCount (batchLightQuad q s) \<le> vertexCapacity (batchLightQuad q s)
      \<and> length (vertexViewF32 (batchLightQuad q s)) = length (vertexViewF32 s)"
    if ok: "buffer_ok s" and cap: "6 \<le> vertexCapacity s"
  proof -
    have fits: "0 + length (spec_quad q) \<le> length (vertexViewF32 s)"
      using cap buffer_length [OF ok] by (simp add: length_spec_quad)
    have "take 54 (overwrite (vertexViewF32 s) 0 (spec_quad q)) = spec_quad q"
      using segment_overwrite [of 0 "vertexViewF32 s" "spec_quad q"]
      by (simp add: length_spec_quad)
    then show ?thesis
      using cap fits
      by (simp add: batchLight_flushed [OF ok assms cap] pending_def stride_nine [OF ok]
          length_overwrite)
  qed
  then show ?thesis
    using batchLight_flush_first [OF assms, of q] by (simp add: Let_def gl_call_def)
qed

theorem batchLight_flushes_before_writing_witness:
  "shouldFlush 6 ((base_pipeline 6 (0::int))\<lparr>vertexCount := 6\<rparr>)
   \<and> buffer_ok ((base_pipeline 6 (0::int))\<lparr>vertexCount := 6\<rparr>)
   \<and> gl_calls (gl (batchLightQuad sample_quad ((base_pipeline 6 0)\<lparr>vertexCount := 6\<rparr>)))
       = [DrawArrays (replicate 54 0)]
   \<and> vertexCount (batchLightQuad sample_quad ((base_pipeline 6 0)\<lparr>vertexCount := 6\<rparr>)) = 6
   \<and> pending (batchLightQuad sample_quad ((base_pipeline 6 0)\<lparr>vertexCount := 6\<rparr>))
       = spec_quad sample_quad"
proof -
  let ?s = "(base_pipeline 6 (0::int))\<lparr>vertexCount := 6\<rparr>"
  have full: "shouldFlush 6 ?s"
    by (simp add: shouldFlush_def base_pipeline_def)
  have ok: "buffer_ok ?s"
    by (simp add: buffer_ok_def base_pipeline_def)
  have cap: "6 \<le> vertexCapacity ?s"
    by (simp add: base_pipeline_def)
  have before: "gl_calls (gl ?s) = []" "pending ?s = replicate 54 0"
    by (simp_all add: base_pipeline_def pending_def attributes_def)
  show ?thesis
    using batchLight_flushes_before_writing [OF full, of sample_quad] full ok cap before
    by (simp add: Let_def)
qed

text \<open>
  C2: a sequence of \<open>N\<close> calls of \<^verbatim>\<open>batchLight\<close> that fits in what is left of the buffer
  makes no call to the rendering context, neither at its end nor after any of its calls,
  counts \<open>6 \<times> N\<close> more vertices, and appends to the pending vertices the quads of the calls
  in call order, each quad the two triangles of the spec with the same light fields on its
  six vertices.
\<close>

theorem batchLights_no_flush_in_order:
  assumes "buffer_ok s" and "vertexCount s + 6 * length qs \<le> vertexCapacity s"
  shows "let s' = batchLights qs s
         in (\<forall>n. gl (batchLights (take n qs) s) = gl s)
          \<and> vertexCount s' = vertexCount s + 6 * length qs
          \<and> pending s' = pending s @ concat (map spec_quad qs)
          \<and> length (concat (map spec_quad qs)) = 9 * (6 * length qs)"
proof -
  have prefix: "gl (batchLights (take n qs) s) = gl s" for n
  proof -
    have "vertexCount s + 6 * length (take n qs) \<le> vertexCapacity s"
      using assms(2) by simp
    then show ?thesis
      by (simp add: batchLights_room [OF assms(1)])
  qed
  have below: "vertexCount s * 9 \<le> length (vertexViewF32 s)"
    using assms(2) buffer_length [OF assms(1)] by simp
  have "pending (batchLights qs s) = pending s @ concat (map spec_quad qs)"
    using pending_overwrite [OF stride_nine [OF assms(1)] below, of "concat (map spec_quad qs)"
        "6 * length qs"]
    by (simp add: batchLights_room [OF assms] length_concat_quads)
  then show ?thesis
    using prefix by (simp add: Let_def batchLights_room [OF assms] length_concat_quads)
qed

theorem batchLights_no_flush_in_order_witness:
  "buffer_ok (base_pipeline 12 (0::int))
   \<and> vertexCount (base_pipeline 12 (0::int)) + 6 * length [sample_quad, sample_quad]
       \<le> vertexCapacity (base_pipeline 12 (0::int))
   \<and> gl_calls (gl (batchLights [sample_quad, sample_quad] (base_pipeline 12 0))) = []
   \<and> vertexCount (batchLights [sample_quad, sample_quad] (base_pipeline 12 0)) = 12
   \<and> pending (batchLights [sample_quad, sample_quad] (base_pipeline 12 0))
       = spec_quad sample_quad @ spec_quad sample_quad"
proof -
  let ?s = "base_pipeline 12 (0::int)"
  have ok: "buffer_ok ?s"
    by (simp add: buffer_ok_def base_pipeline_def)
  have room: "vertexCount ?s + 6 * length [sample_quad, sample_quad] \<le> vertexCapacity ?s"
    by (simp add: base_pipeline_def)
  have before: "gl_calls (gl ?s) = []" "pending ?s = []" "vertexCount ?s = 0"
    by (simp_all add: base_pipeline_def pending_def)
  have "gl (batchLights (take 2 [sample_quad, sample_quad]) ?s) = gl ?s"
    using batchLights_no_flush_in_order [OF ok room] unfolding Let_def by blast
  then have "gl (batchLights [sample_quad, sample_quad] ?s) = gl ?s"
    by simp
  then show ?thesis
    using batchLights_no_flush_in_order [OF ok room] ok room before
    by (simp add: Let_def)
qed

lemma nth_f32_set:
  "j < length view \<Longrightarrow>
     f32_set view i v ! j = (if i = int j then v else view ! j)"
  by (auto simp add: f32_set_def nth_list_update)

lemma nine_elements:
  assumes "length (m :: 'a list) = 9"
  shows "m = [m ! 0, m ! 1, m ! 2, m ! 3, m ! 4, m ! 5, m ! 6, m ! 7, m ! 8]"
proof (rule nth_equalityI)
  show "length m = length [m ! 0, m ! 1, m ! 2, m ! 3, m ! 4, m ! 5, m ! 6, m ! 7, m ! 8]"
    using assms by simp
next
  fix i assume "i < length m"
  then have "i = 0 \<or> i = 1 \<or> i = 2 \<or> i = 3 \<or> i = 4 \<or> i = 5 \<or> i = 6 \<or> i = 7 \<or> i = 8"
    using assms by arith
  then show "m ! i = [m ! 0, m ! 1, m ! 2, m ! 3, m ! 4, m ! 5, m ! 6, m ! 7, m ! 8] ! i"
    by auto
qed

text \<open>The matrix that \<^verbatim>\<open>setNormalMapRotation\<close> leaves in \<open>inverseRotationMatrix\<close>.\<close>

lemma rotated_matrix:
  assumes "homogeneous m"
  shows "(if rotation \<noteq> 0
          then
            (let rot = - rotation;
                 c = cos rot;
                 sn = sin rot;
                 m1 = f32_set m 1 sn;
                 m2 = f32_set m1 3 (- sn);
                 m3 = f32_set m2 4 c
             in f32_set m3 0 c)
          else
            (let m1 = f32_set m 4 1;
                 m2 = f32_set m1 0 1;
                 m3 = f32_set m2 3 0
             in f32_set m3 1 0))
         = inverse_rotation_floats rotation"
    (is "?m' = ?r")
proof -
  have len: "length m = 9" and fixed: "m ! 2 = 0" "m ! 5 = 0" "m ! 6 = 0" "m ! 7 = 0" "m ! 8 = 1"
    using assms by (simp_all add: homogeneous_def)
  have len': "length ?m' = 9"
    by (simp add: len Let_def)
  have "?m' ! 0 = cos (- rotation)" "?m' ! 1 = sin (- rotation)" "?m' ! 2 = 0"
    "?m' ! 3 = - sin (- rotation)" "?m' ! 4 = cos (- rotation)" "?m' ! 5 = 0"
    "?m' ! 6 = 0" "?m' ! 7 = 0" "?m' ! 8 = 1"
    by (simp_all add: Let_def nth_f32_set len fixed)
  then show ?thesis
    using nine_elements [OF len'] by (simp add: inverse_rotation_floats_def)
qed

lemma setNormalMapRotation_upload:
  assumes "homogeneous (inverseRotationMatrix s)"
    and "currentNormalMapRotation s \<noteq> Some rotation \<or> vertexCount s = 0"
  shows "setNormalMapRotation rotation s =
         (if vertexCount s > 0 then flush s else s)
           \<lparr>inverseRotationMatrix :=
              inverse_rotation_floats rotation,
            gl := gl_call (SetMatrix3 UInverseRotationMatrix False
              (inverse_rotation_floats rotation))
              (gl (if vertexCount s > 0 then flush s else s)),
            currentNormalMapRotation := Some rotation\<rparr>"
proof -
  have "homogeneous (inverseRotationMatrix (if vertexCount s > 0 then flush s else s))"
    using assms(1) by (simp add: flush_def)
  note m = rotated_matrix [OF this, of rotation, unfolded Let_def]
  show ?thesis
    unfolding setNormalMapRotation_def Let_def m using assms(2) by simp
qed

lemma homogeneous_rotation:
  "homogeneous (inverse_rotation_floats rotation)"
  by (simp add: homogeneous_def inverse_rotation_floats_def)

lemma homogeneous_setNormalMapRotation:
  assumes "homogeneous (inverseRotationMatrix s)"
  shows "homogeneous (inverseRotationMatrix (setNormalMapRotation rotation s))"
proof (cases "currentNormalMapRotation s \<noteq> Some rotation \<or> vertexCount s = 0")
  case True
  show ?thesis
    by (simp add: setNormalMapRotation_upload [OF assms True] homogeneous_rotation)
next
  case False
  then show ?thesis
    using assms by (simp add: setNormalMapRotation_def)
qed

lemma rows_of_rotation:
  "mat3_rows (inverse_rotation_floats rotation) = spec_inverse_rotation rotation"
  unfolding mat3_rows_def inverse_rotation_floats_def spec_inverse_rotation_def by simp

lemma gl_calls_flush: "gl_calls (gl (flush s)) = gl_calls (gl s) @ [DrawArrays (pending s)]"
  by (simp add: flush_def gl_call_def)

lemma no_turn: "spec_inverse_rotation 0 = [[1, 0, 0], [0, 1, 0], [0, 0, 1]]"
  by (simp add: spec_inverse_rotation_def)

lemma quarter_turn: "spec_inverse_rotation (pi / 2) = [[0, 1, 0], [-1, 0, 0], [0, 0, 1]]"
  by (simp add: spec_inverse_rotation_def)

text \<open>A change of rotation while vertices are pending, from a matrix of the kept shape.\<close>

lemma rotation_change:
  assumes "homogeneous (inverseRotationMatrix s)"
    and "vertexCount s > 0"
    and "currentNormalMapRotation s \<noteq> Some rotation"
  shows "let s' = setNormalMapRotation rotation s
         in gl_calls (gl s') = gl_calls (gl s) @
              [DrawArrays (pending s),
               SetMatrix3 UInverseRotationMatrix False (inverseRotationMatrix s')]
          \<and> length (inverseRotationMatrix s') = 9
          \<and> mat3_rows (inverseRotationMatrix s') = spec_inverse_rotation rotation
          \<and> (if rotation = 0
              then mat3_rows (inverseRotationMatrix s') = [[1, 0, 0], [0, 1, 0], [0, 0, 1]]
              else if rotation = pi / 2
              then mat3_rows (inverseRotationMatrix s') = [[0, 1, 0], [-1, 0, 0], [0, 0, 1]]
              else True)
          \<and> vertexCount s' = 0
          \<and> currentNormalMapRotation s' = Some rotation"
proof -
  have s': "setNormalMapRotation rotation s =
            (flush s)\<lparr>inverseRotationMatrix := inverse_rotation_floats rotation,
              gl := gl_call (SetMatrix3 UInverseRotationMatrix False
                      (inverse_rotation_floats rotation)) (gl (flush s)),
              currentNormalMapRotation := Some rotation\<rparr>"
    using setNormalMapRotation_upload [OF assms(1), of rotation] assms(2,3) by simp
  have len: "length (inverse_rotation_floats rotation) = 9"
    by (simp add: inverse_rotation_floats_def)
  have special:
    "if rotation = 0
     then spec_inverse_rotation rotation = [[1, 0, 0], [0, 1, 0], [0, 0, 1]]
     else if rotation = pi / 2
     then spec_inverse_rotation rotation = [[0, 1, 0], [-1, 0, 0], [0, 0, 1]]
     else True"
  proof (cases "rotation = 0")
    case True
    then show ?thesis
      using no_turn by simp
  next
    case False
    show ?thesis
    proof (cases "rotation = pi / 2")
      case True
      with False show ?thesis
        using quarter_turn by (simp only: if_True if_False refl)
    next
      case False
      with \<open>rotation \<noteq> 0\<close> show ?thesis
        by (simp only: if_False)
    qed
  qed
  have calls: "gl_calls (gl (setNormalMapRotation rotation s)) = gl_calls (gl s) @
        [DrawArrays (pending s),
         SetMatrix3 UInverseRotationMatrix False (inverse_rotation_floats rotation)]"
    by (simp add: s' gl_call_def gl_calls_flush)
  have rest: "inverseRotationMatrix (setNormalMapRotation rotation s)
              = inverse_rotation_floats rotation"
    "vertexCount (setNormalMapRotation rotation s) = 0"
    "currentNormalMapRotation (setNormalMapRotation rotation s) = Some rotation"
    by (simp_all add: s' flush_def)
  show ?thesis
    unfolding Let_def calls rest rows_of_rotation len
    using special by (simp only: simp_thms)
qed

lemma inverseRotationMatrix_batchVert [simp]:
  "inverseRotationMatrix (batchVert x y lightX lightY radius r g b a s) = inverseRotationMatrix s"
  by (simp add: batchVert_def Let_def)

lemma inverseRotationMatrix_flush [simp]:
  "inverseRotationMatrix (flush s) = inverseRotationMatrix s"
  by (simp add: flush_def)

lemma inverseRotationMatrix_batchLightQuad [simp]:
  "inverseRotationMatrix (batchLightQuad q s) = inverseRotationMatrix s"
  by (cases q) (simp add: batchLight_def Let_def)

lemma inverseRotationMatrix_boot [simp]:
  "inverseRotationMatrix (boot s) = inverseRotationMatrix s"
  by (simp add: boot_def Let_def split: prod.splits)

lemma homogeneous_exec:
  "homogeneous (inverseRotationMatrix s) \<Longrightarrow> homogeneous (inverseRotationMatrix (exec c s))"
  by (cases c) (simp_all add: homogeneous_setNormalMapRotation)

lemma homogeneous_run:
  "homogeneous (inverseRotationMatrix s) \<Longrightarrow> homogeneous (inverseRotationMatrix (run cs s))"
  by (induction cs arbitrary: s) (simp_all add: homogeneous_exec)

lemma homogeneous_LightPipeline: "homogeneous (inverseRotationMatrix (LightPipeline base))"
  by (simp add: LightPipeline_def homogeneous_def)

text \<open>
  C10: after any sequence of calls of the pipeline's methods on a pipeline fresh from the
  constructor, and then a call of \<^verbatim>\<open>setNormalMapRotation\<close> with any angle, the stored
  matrix has nine entries, those at the indices 2, 5, 6 and 7 are 0 and that at the index 8
  is 1.
\<close>

theorem inverseRotationMatrix_stays_homogeneous:
  "let m = inverseRotationMatrix (setNormalMapRotation rotation (run calls (LightPipeline base)))
   in length m = 9 \<and> m ! 2 = 0 \<and> m ! 5 = 0 \<and> m ! 6 = 0 \<and> m ! 7 = 0 \<and> m ! 8 = 1"
proof -
  have "homogeneous (inverseRotationMatrix (run calls (LightPipeline base)))"
    using homogeneous_LightPipeline by (rule homogeneous_run)
  then have "homogeneous
      (inverseRotationMatrix (setNormalMapRotation rotation (run calls (LightPipeline base))))"
    by (rule homogeneous_setNormalMapRotation)
  then show ?thesis
    by (simp add: homogeneous_def Let_def)
qed

theorem inverseRotationMatrix_stays_homogeneous_witness:
  "let m = inverseRotationMatrix (setNormalMapRotation (pi / 2)
             (run [CallSetNormalMapRotation 1, CallBatchLight (LightQuad
                     \<lparr>light_x = 0, light_y = 0, light_radius = 1,
                      light_color = \<lparr>color_r = 1, color_g = 1, color_b = 1\<rparr>,
                      light_r = 1, light_g = 1, light_b = 1, light_intensity = 1,
                      light_alpha = 1, light_scrollFactorX = 1, light_scrollFactorY = 1,
                      light_dirty = False\<rparr>
                     \<lparr>camera_alpha = 1, camera_x = 0, camera_y = 0, camera_rotation = 0,
                      camera_zoom = 1, camera_scrollX = 0, camera_scrollY = 0,
                      camera_dirty = False, camera_matrix = (\<lambda>x y. (x, y))\<rparr>
                     0 0 1 0 1 1 0 1 0 0), CallFlush]
               fresh_pipeline))
   in length m = 9 \<and> m ! 2 = 0 \<and> m ! 5 = 0 \<and> m ! 6 = 0 \<and> m ! 7 = 0 \<and> m ! 8 = 1"
  unfolding fresh_pipeline_def by (rule inverseRotationMatrix_stays_homogeneous)

lemma rotation_uploads_flush [simp]: "rotation_uploads (flush s) = rotation_uploads s"
  by (simp add: rotation_uploads_def flush_def gl_call_def)

text \<open>The stores of \<^verbatim>\<open>setNormalMapRotation\<close> into the matrix, done twice, are as done once.\<close>

lemma stores_twice:
  "f32_set (f32_set (f32_set (f32_set
     (f32_set (f32_set (f32_set (f32_set m i1 v1) i2 v2) i3 v3) i4 v4) i1 v1) i2 v2) i3 v3) i4 v4
   = f32_set (f32_set (f32_set (f32_set m i1 v1) i2 v2) i3 v3) i4 v4"
  by (rule nth_equalityI) (simp_all add: nth_f32_set)

lemma setNormalMapRotation_noop:
  "currentNormalMapRotation s = Some rotation \<Longrightarrow> vertexCount s > 0 \<Longrightarrow>
   setNormalMapRotation rotation s = s"
  by (simp add: setNormalMapRotation_def)

lemma setNormalMapRotation_uploads:
  assumes "currentNormalMapRotation s \<noteq> Some rotation \<or> vertexCount s = 0"
  shows "vertexCount (setNormalMapRotation rotation s) = 0"
    and "currentNormalMapRotation (setNormalMapRotation rotation s) = Some rotation"
    and "rotation_uploads (setNormalMapRotation rotation s) = rotation_uploads s + 1"
  using assms
  by (auto simp add: setNormalMapRotation_def Let_def flush_def rotation_uploads_def gl_call_def)

lemma setNormalMapRotation_again:
  assumes "currentNormalMapRotation s = Some rotation" and "vertexCount s = 0"
    and "s = setNormalMapRotation rotation s0"
    and "currentNormalMapRotation s0 \<noteq> Some rotation \<or> vertexCount s0 = 0"
  shows "setNormalMapRotation rotation s =
         s\<lparr>gl := gl_call (SetMatrix3 UInverseRotationMatrix False (inverseRotationMatrix s)) (gl s)\<rparr>"
proof -
  have m: "inverseRotationMatrix s =
           (if rotation \<noteq> 0
            then f32_set (f32_set (f32_set (f32_set
                   (inverseRotationMatrix s0) 1 (sin (- rotation))) 3 (- sin (- rotation)))
                   4 (cos (- rotation))) 0 (cos (- rotation))
            else f32_set (f32_set (f32_set (f32_set
                   (inverseRotationMatrix s0) 4 1) 0 1) 3 0) 1 0)"
    unfolding assms(3) setNormalMapRotation_def Let_def using assms(4)
    by (simp add: flush_def)
  have again: "(if rotation \<noteq> 0
            then f32_set (f32_set (f32_set (f32_set
                   (inverseRotationMatrix s) 1 (sin (- rotation))) 3 (- sin (- rotation)))
                   4 (cos (- rotation))) 0 (cos (- rotation))
            else f32_set (f32_set (f32_set (f32_set
                   (inverseRotationMatrix s) 4 1) 0 1) 3 0) 1 0) = inverseRotationMatrix s"
  proof (cases "rotation \<noteq> 0")
    case True
    then show ?thesis
      unfolding m by (simp only: if_True if_False not_False_eq_True not_True_eq_False not_not simp_thms stores_twice)
  next
    case False
    then show ?thesis
      unfolding m by (simp only: if_True if_False not_False_eq_True not_True_eq_False not_not simp_thms stores_twice)
  qed
  have same: "(if vertexCount s > 0 then flush s else s) = s"
    using assms(2) by simp
  have "setNormalMapRotation rotation s =
        s\<lparr>inverseRotationMatrix := inverseRotationMatrix s,
          gl := gl_call (SetMatrix3 UInverseRotationMatrix False (inverseRotationMatrix s)) (gl s),
          currentNormalMapRotation := currentNormalMapRotation s\<rparr>"
    unfolding setNormalMapRotation_def Let_def same again
    using assms(1,2) by (simp only: simp_thms if_True)
  then show ?thesis
    by simp
qed

text \<open>
  C4, as the code has it: of two calls of \<^verbatim>\<open>setNormalMapRotation\<close> in a row with the same
  angle, the second is a no-op exactly when a vertex is pending after the first, and then
  the first was a no-op too. When the batch is empty after the first call, which is so
  whenever the first call uploaded, the second call uploads the stored matrix once more,
  and changes nothing else: two uploads in all.
\<close>

theorem setNormalMapRotation_twice:
  "let s1 = setNormalMapRotation rotation s;
       s2 = setNormalMapRotation rotation s1
   in if vertexCount s1 > 0
      then s1 = s \<and> s2 = s1 \<and> rotation_uploads s2 = rotation_uploads s
      else s2 = s1\<lparr>gl := gl_call
                     (SetMatrix3 UInverseRotationMatrix False (inverseRotationMatrix s1)) (gl s1)\<rparr>
         \<and> rotation_uploads s1 = rotation_uploads s + 1
         \<and> rotation_uploads s2 = rotation_uploads s + 2"
proof (cases "currentNormalMapRotation s \<noteq> Some rotation \<or> vertexCount s = 0")
  case True
  let ?s1 = "setNormalMapRotation rotation s"
  note first = setNormalMapRotation_uploads [OF True]
  have second: "setNormalMapRotation rotation ?s1 =
        ?s1\<lparr>gl := gl_call
               (SetMatrix3 UInverseRotationMatrix False (inverseRotationMatrix ?s1)) (gl ?s1)\<rparr>"
    using first(2) first(1) refl True by (rule setNormalMapRotation_again)
  have "rotation_uploads (setNormalMapRotation rotation ?s1) = rotation_uploads ?s1 + 1"
    unfolding second by (simp add: rotation_uploads_def gl_call_def)
  then show ?thesis
    using first second by (simp add: Let_def)
next
  case False
  then have "setNormalMapRotation rotation s = s" and "vertexCount s > 0"
    by (simp_all add: setNormalMapRotation_noop)
  then show ?thesis
    by (simp add: Let_def)
qed

text \<open>
  The claim fails on a pipeline fresh from the constructor: nothing is batched, and each of
  two calls with the angle 0 uploads the matrix.
\<close>

theorem setNormalMapRotation_twice_counterexample:
  "vertexCount fresh_pipeline = 0
   \<and> vertexCount (setNormalMapRotation 0 fresh_pipeline) = 0
   \<and> rotation_uploads fresh_pipeline = 0
   \<and> rotation_uploads (setNormalMapRotation 0 (setNormalMapRotation 0 fresh_pipeline)) = 2
   \<and> setNormalMapRotation 0 (setNormalMapRotation 0 fresh_pipeline)
       \<noteq> setNormalMapRotation 0 fresh_pipeline"
proof -
  have empty: "vertexCount fresh_pipeline = 0" and none: "rotation_uploads fresh_pipeline = 0"
    by (simp_all add: fresh_pipeline_def LightPipeline_def base_pipeline_def rotation_uploads_def)
  have first: "currentNormalMapRotation fresh_pipeline \<noteq> Some 0 \<or> vertexCount fresh_pipeline = 0"
    using empty by simp
  note one = setNormalMapRotation_uploads [OF first]
  have second: "currentNormalMapRotation (setNormalMapRotation 0 fresh_pipeline) \<noteq> Some 0
      \<or> vertexCount (setNormalMapRotation 0 fresh_pipeline) = 0"
    using one(1) by simp
  note two = setNormalMapRotation_uploads [OF second]
  have "rotation_uploads (setNormalMapRotation 0 (setNormalMapRotation 0 fresh_pipeline))
        \<noteq> rotation_uploads (setNormalMapRotation 0 fresh_pipeline)"
    using two(3) by simp
  then have "setNormalMapRotation 0 (setNormalMapRotation 0 fresh_pipeline)
             \<noteq> setNormalMapRotation 0 fresh_pipeline"
    by metis
  then show ?thesis
    using empty none one two by simp
qed

lemma boot_default:
  "defaultNormalMap (boot s) = Some (length (gl_textures (gl s)))"
  "gl_textures (gl (boot s)) = gl_textures (gl s) @ [Some flat_normal]"
  by (simp_all add: boot_def createTexture_def activeTexture_def bindTexture_def texImage2D_def
      flat_normal_def Let_def)

lemma default_kept_batchVert [simp]:
  "defaultNormalMap (batchVert x y lightX lightY radius r g b a s) = defaultNormalMap s"
  by (simp add: batchVert_def Let_def)

lemma default_kept_flush [simp]:
  "defaultNormalMap (flush s) = defaultNormalMap s"
  "gl_textures (gl (flush s)) = gl_textures (gl s)"
  by (simp_all add: flush_def gl_call_def)

lemma default_kept_batchLightQuad [simp]:
  "defaultNormalMap (batchLightQuad q s) = defaultNormalMap s"
  "gl_textures (gl (batchLightQuad q s)) = gl_textures (gl s)"
  by (cases q; simp add: batchLight_def Let_def)+

lemma default_kept_setNormalMapRotation [simp]:
  "defaultNormalMap (setNormalMapRotation rotation s) = defaultNormalMap s"
  "gl_textures (gl (setNormalMapRotation rotation s)) = gl_textures (gl s)"
  by (simp_all add: setNormalMapRotation_def Let_def gl_call_def)

lemma default_kept_exec:
  "CallBoot \<noteq> c \<Longrightarrow> defaultNormalMap (exec c s) = defaultNormalMap s
     \<and> gl_textures (gl (exec c s)) = gl_textures (gl s)"
  by (cases c) simp_all

text \<open>No method but \<^verbatim>\<open>boot\<close> creates a texture or changes the default normal map.\<close>

lemma default_kept_run:
  "CallBoot \<notin> set cs \<Longrightarrow> defaultNormalMap (run cs s) = defaultNormalMap s
     \<and> gl_textures (gl (run cs s)) = gl_textures (gl s)"
  by (induction cs arbitrary: s) (simp_all add: default_kept_exec)

text \<open>
  With no game object, and when the lookup ends with nothing, \<^verbatim>\<open>getNormalMap\<close> returns the
  default normal map.
\<close>

lemma getNormalMap_falls_back:
  assumes "gameObject = None \<or> lookupNormalMap gameObject s = Inr None"
    and "defaultNormalMap s = Some d"
  shows "getNormalMap gameObject s = Inr d"
  using assms by (auto simp add: getNormalMap_def lookupNormalMap_def)

text \<open>
  A game object from which no path leads to a normal map gets the default normal map, unless
  the lookup throws: \<^verbatim>\<open>getNormalMap\<close> reads the path of the first of the properties
  \<^verbatim>\<open>displayTexture\<close>, \<^verbatim>\<open>texture\<close> and \<^verbatim>\<open>tileset\<close> that is set, and throws when the display
  frame, the frame, the first tileset or the image on this path is missing.
\<close>

lemma getNormalMap_default_or_throws:
  assumes "no_normal_map go" and "defaultNormalMap s = Some d"
  shows "getNormalMap (Some go) s = (if lookupNormalMap (Some go) s = Inl TypeError
                                     then Inl TypeError else Inr d)"
  using assms
  by (auto simp add: getNormalMap_def lookupNormalMap_def no_normal_map_def display_source_def
      texture_source_def tileset_source_def first_tileset_def
      split: option.splits tilesets.splits list.splits)

text \<open>
  C8: \<^verbatim>\<open>boot\<close> creates one texture, with the 1 by 1 image of the bytes 127, 127, 255, 255,
  and makes it the default normal map. \<^verbatim>\<open>getNormalMap\<close> then returns this texture when no
  game object is given, for a sprite whose texture has no data source, and for a tilemap layer
  whose tileset has an image with no data source. From a tilemap layer whose tileset has no
  image no path leads to a normal map either, but there \<^verbatim>\<open>getNormalMap\<close> throws a TypeError,
  where it reads the data source of the missing image, and does not reach its fallback.
\<close>

theorem getNormalMap_throws_without_image:
  "gl_textures (gl (boot fresh_pipeline)) = [Some flat_normal]
   \<and> defaultNormalMap (boot fresh_pipeline) = Some 0
   \<and> getNormalMap None (boot fresh_pipeline) = Inr 0
   \<and> no_normal_map plain_sprite
   \<and> getNormalMap (Some plain_sprite) (boot fresh_pipeline) = Inr 0
   \<and> no_normal_map layer_without_source
   \<and> getNormalMap (Some layer_without_source) (boot fresh_pipeline) = Inr 0
   \<and> no_normal_map layer_without_image
   \<and> getNormalMap (Some layer_without_image) (boot fresh_pipeline) = Inl TypeError"
proof -
  have none: "gl_textures (gl fresh_pipeline) = []"
    by (simp add: fresh_pipeline_def LightPipeline_def base_pipeline_def)
  have created: "gl_textures (gl (boot fresh_pipeline)) = [Some flat_normal]"
    and default: "defaultNormalMap (boot fresh_pipeline) = Some 0"
    by (simp_all add: boot_default none)
  have absent: "getNormalMap None (boot fresh_pipeline) = Inr 0"
    by (simp add: getNormalMap_def lookupNormalMap_def default)
  have sprite: "no_normal_map plain_sprite"
    by (simp add: no_normal_map_def display_source_def texture_source_def tileset_source_def
        first_tileset_def plain_sprite_def array_get_def)
  have sprite_default: "getNormalMap (Some plain_sprite) (boot fresh_pipeline) = Inr 0"
    by (simp add: getNormalMap_def lookupNormalMap_def plain_sprite_def array_get_def default)
  have layer: "no_normal_map layer_without_source"
    by (simp add: no_normal_map_def display_source_def texture_source_def tileset_source_def
        first_tileset_def layer_without_source_def array_get_def)
  have layer_default: "getNormalMap (Some layer_without_source) (boot fresh_pipeline) = Inr 0"
    by (simp add: getNormalMap_def lookupNormalMap_def layer_without_source_def array_get_def
        default)
  have broken: "no_normal_map layer_without_image"
    by (simp add: no_normal_map_def display_source_def texture_source_def tileset_source_def
        first_tileset_def layer_without_image_def)
  have throws: "getNormalMap (Some layer_without_image) (boot fresh_pipeline) = Inl TypeError"
    by (simp add: getNormalMap_def lookupNormalMap_def layer_without_image_def)
  show ?thesis
    using created default absent sprite sprite_default layer layer_default broken throws
    by simp
qed

lemma lightCount_exec: "lightCount (exec c s) = lightCount s"
proof (cases c)
  case (CallBatchLight q)
  then show ?thesis
    by (cases q) (simp add: batchLight_def batchVert_def flush_def Let_def)
qed (simp_all add: batchVert_def flush_def boot_def setNormalMapRotation_def Let_def
      split: prod.splits)

lemma gl_calls_exec:
  "\<exists>new. gl_calls (gl (exec c s)) = gl_calls (gl s) @ new
     \<and> set new \<subseteq> range DrawArrays \<union> Collect is_rotation_upload"
proof (cases c)
  case (CallBatchVert x y lightX lightY radius r g b a)
  then show ?thesis
    by simp
next
  case (CallBatchLight q)
  then show ?thesis
    by (cases q) (simp add: batchLight_def Let_def gl_calls_flush)
next
  case CallFlush
  then show ?thesis
    by (simp add: gl_calls_flush)
next
  case CallBoot
  then show ?thesis
    by (simp add: boot_def createTexture_def activeTexture_def bindTexture_def texImage2D_def
        Let_def split: option.splits)
next
  case (CallSetNormalMapRotation rotation)
  then show ?thesis
    by (simp add: setNormalMapRotation_def Let_def gl_call_def gl_calls_flush)
qed

text \<open>
  The pass over the lights of a camera is no method of the class (the text of \<^verbatim>\<open>onRender\<close>
  stands inside a comment), and no method that the class defines takes part in a
  synchronisation of the lights: the recorded number of lights stays 0, as the constructor
  left it, and every call that the methods send to the context is a draw of a flushed batch
  or an upload of the rotation matrix.
\<close>

lemma no_light_sync:
  "lightCount (run calls (LightPipeline base)) = 0
   \<and> (\<exists>new. gl_calls (gl (run calls (LightPipeline base))) = gl_calls (gl base) @ new
         \<and> set new \<subseteq> range DrawArrays \<union> Collect is_rotation_upload)"
proof -
  have count: "lightCount (run cs s) = lightCount s" for cs s
    by (induction cs arbitrary: s) (simp_all add: lightCount_exec)
  have calls: "\<exists>new. gl_calls (gl (run cs s)) = gl_calls (gl s) @ new
      \<and> set new \<subseteq> range DrawArrays \<union> Collect is_rotation_upload" for cs s
  proof (induction cs arbitrary: s)
    case Nil
    then show ?case
      by simp
  next
    case (Cons c cs)
    obtain new1 where one: "gl_calls (gl (exec c s)) = gl_calls (gl s) @ new1"
      "set new1 \<subseteq> range DrawArrays \<union> Collect is_rotation_upload"
      using gl_calls_exec by blast
    obtain new2 where two: "gl_calls (gl (run cs (exec c s))) = gl_calls (gl (exec c s)) @ new2"
      "set new2 \<subseteq> range DrawArrays \<union> Collect is_rotation_upload"
      using Cons.IH by blast
    have "gl_calls (gl (run (c # cs) s)) = gl_calls (gl s) @ (new1 @ new2)"
      using one(1) two(1) by simp
    moreover have "set (new1 @ new2) \<subseteq> range DrawArrays \<union> Collect is_rotation_upload"
      using one(2) two(2) by simp
    ultimately show ?case
      by blast
  qed
  show ?thesis
    using count [of calls "LightPipeline base"] calls [of calls "LightPipeline base"]
    by (simp add: LightPipeline_def)
qed

lemma nth_nine_stores:
  assumes "j < length view"
  shows "f32_set (f32_set (f32_set (f32_set (f32_set (f32_set (f32_set (f32_set (f32_set view
            (i + 1) v1) (i + 2) v2) (i + 3) v3) (i + 4) v4) (i + 5) v5) (i + 6) v6) (i + 7) v7)
            (i + 8) v8) (i + 9) v9 ! j =
         (if int j = i + 9 then v9 else if int j = i + 8 then v8 else if int j = i + 7 then v7
          else if int j = i + 6 then v6 else if int j = i + 5 then v5
          else if int j = i + 4 then v4 else if int j = i + 3 then v3
          else if int j = i + 2 then v2 else if int j = i + 1 then v1 else view ! j)"
  using assms by (simp add: nth_f32_set eq_commute [of _ "int j"])

text \<open>What a call of \<^verbatim>\<open>batchVert\<close> leaves in each slot of the buffer.\<close>

lemma batchVert_slot:
  assumes "j < length (vertexViewF32 s)"
  shows "vertexViewF32 (batchVert x y lightX lightY radius r g b a s) ! j =
         (if vertexCount s * vertexComponentCount s \<le> j
             \<and> j < vertexCount s * vertexComponentCount s + 9
          then [x, y, lightX, lightY, radius, r, g, b, a]
                 ! (j - vertexCount s * vertexComponentCount s)
          else vertexViewF32 s ! j)"
proof -
  define off where "off = vertexCount s * vertexComponentCount s"
  define s' where "s' = batchVert x y lightX lightY radius r g b a s"
  have view: "vertexViewF32 s' =
      f32_set (f32_set (f32_set (f32_set (f32_set (f32_set (f32_set (f32_set (f32_set
        (vertexViewF32 s)
        (int off - 1 + 1) x) (int off - 1 + 2) y) (int off - 1 + 3) lightX)
        (int off - 1 + 4) lightY) (int off - 1 + 5) radius) (int off - 1 + 6) r)
        (int off - 1 + 7) g) (int off - 1 + 8) b) (int off - 1 + 9) a"
    unfolding s'_def batchVert_def Let_def off_def by simp
  have "vertexViewF32 s' ! j =
            (if off \<le> j \<and> j < off + 9
             then [x, y, lightX, lightY, radius, r, g, b, a] ! (j - off)
             else vertexViewF32 s ! j)"
  proof (cases "off \<le> j \<and> j < off + 9")
    case True
    then have "j = off \<or> j = off + 1 \<or> j = off + 2 \<or> j = off + 3 \<or> j = off + 4
        \<or> j = off + 5 \<or> j = off + 6 \<or> j = off + 7 \<or> j = off + 8"
      by arith
    then show ?thesis
      unfolding view nth_nine_stores [OF assms] by (elim disjE) simp_all
  next
    case False
    then have "j \<noteq> off" "int j \<noteq> 1 + int off" "int j \<noteq> 2 + int off"
      "int j \<noteq> 3 + int off" "int j \<noteq> 4 + int off" "int j \<noteq> 5 + int off"
      "int j \<noteq> 6 + int off" "int j \<noteq> 7 + int off" "int j \<noteq> 8 + int off"
      by linarith+
    then have "vertexViewF32 s' ! j = vertexViewF32 s ! j"
      unfolding view nth_nine_stores [OF assms] by simp
    with False show ?thesis
      by (simp only: if_False)
  qed
  then show ?thesis
    by (simp only: s'_def off_def)
qed

lemma length_batchVert [simp]:
  "length (vertexViewF32 (batchVert x y lightX lightY radius r g b a s))
   = length (vertexViewF32 s)"
  by (simp add: batchVert_def Let_def)

text \<open>
  C9: every call of \<^verbatim>\<open>batchVert\<close> stores the nine fields
  \<open>x, y, lightX, lightY, radius, r, g, b, a\<close>, in this order, in the nine slots from the offset
  \<open>vertexCount \<times> vertexComponentCount\<close> on, a store beyond the end of the typed array being
  ignored; it changes no other slot and no other field of the pipeline, and counts one more
  vertex. With room for the vertex in the buffer, the vertex that is counted is there in
  full.
\<close>

theorem batchVert_writes_nine_fields:
  "let s' = batchVert x y lightX lightY radius r g b a s;
       off = vertexCount s * vertexComponentCount s
   in length (vertexViewF32 s') = length (vertexViewF32 s)
    \<and> (\<forall>j. j < length (vertexViewF32 s) \<longrightarrow>
          vertexViewF32 s' ! j =
            (if off \<le> j \<and> j < off + 9
             then [x, y, lightX, lightY, radius, r, g, b, a] ! (j - off)
             else vertexViewF32 s ! j))
    \<and> vertexCount s' = vertexCount s + 1
    \<and> s' = s\<lparr>vertexViewF32 := vertexViewF32 s', vertexCount := vertexCount s'\<rparr>
    \<and> (off + 9 \<le> length (vertexViewF32 s) \<longrightarrow>
          take 9 (drop off (vertexViewF32 s')) = [x, y, lightX, lightY, radius, r, g, b, a])"
proof -
  define off where "off = vertexCount s * vertexComponentCount s"
  define s' where "s' = batchVert x y lightX lightY radius r g b a s"
  have len: "length (vertexViewF32 s') = length (vertexViewF32 s)"
    by (simp add: s'_def)
  have slot: "vertexViewF32 s' ! j =
            (if off \<le> j \<and> j < off + 9
             then [x, y, lightX, lightY, radius, r, g, b, a] ! (j - off)
             else vertexViewF32 s ! j)" if "j < length (vertexViewF32 s)" for j
    unfolding s'_def off_def using that by (rule batchVert_slot)
  have rest: "vertexCount s' = vertexCount s + 1"
    "s' = s\<lparr>vertexViewF32 := vertexViewF32 s', vertexCount := vertexCount s'\<rparr>"
    by (simp_all add: s'_def batchVert_def Let_def)
  have whole: "take 9 (drop off (vertexViewF32 s')) = [x, y, lightX, lightY, radius, r, g, b, a]"
    if room: "off + 9 \<le> length (vertexViewF32 s)"
  proof -
    define fields where "fields = [x, y, lightX, lightY, radius, r, g, b, a]"
    have nine: "length fields = 9"
      by (simp add: fields_def)
    have "vertexViewF32 s' = overwrite (vertexViewF32 s) off fields"
      using batchVert_room [of s x y lightX lightY radius r g b a] room
      by (simp add: s'_def off_def fields_def)
    moreover have "off \<le> length (vertexViewF32 s)"
      using room by simp
    ultimately have "take 9 (drop off (vertexViewF32 s')) = fields"
      using segment_overwrite [of off "vertexViewF32 s" fields] by (simp add: nine)
    then show ?thesis
      by (simp add: fields_def)
  qed
  show ?thesis
    unfolding Let_def s'_def [symmetric] off_def [symmetric]
    using len slot rest whole by blast
qed

theorem batchVert_writes_nine_fields_witness:
  "vertexCount (base_pipeline 6 (0::int)) * vertexComponentCount (base_pipeline 6 (0::int)) + 9
     \<le> length (vertexViewF32 (base_pipeline 6 (0::int)))
   \<and> take 9 (vertexViewF32 (batchVert 1 2 3 4 5 6 7 8 9 (base_pipeline 6 (0::int))))
       = [1, 2, 3, 4, 5, 6, 7, 8, 9]
   \<and> vertexCount (batchVert 1 2 3 4 5 6 7 8 9 (base_pipeline 6 (0::int))) = 1"
proof -
  have room: "vertexCount (base_pipeline 6 (0::int)) * vertexComponentCount (base_pipeline 6 (0::int)) + 9
     \<le> length (vertexViewF32 (base_pipeline 6 (0::int)))"
    by (simp add: base_pipeline_def attributes_def)
  have start: "vertexCount (base_pipeline 6 (0::int)) = 0"
    by (simp add: base_pipeline_def)
  show ?thesis
    using batchVert_writes_nine_fields [of 1 2 3 4 5 6 7 8 9 "base_pipeline 6 (0::int)"] room
    by (simp add: Let_def start)
qed

lemma batchLightQuad_keeps [simp]:
  "currentNormalMapRotation (batchLightQuad q s) = currentNormalMapRotation s"
  "vertexCount (batchLightQuad q s) = (if shouldFlush 6 s then 6 else vertexCount s + 6)"
  by (cases q; simp add: batchLight_def Let_def flush_def batchVert_def)+

lemma scenario_C_state:
  "vertexCount (run scenario_C fresh_pipeline) = 6"
  "currentNormalMapRotation (run scenario_C fresh_pipeline) = Some 0"
proof -
  have start: "currentNormalMapRotation fresh_pipeline \<noteq> Some 0 \<or> vertexCount fresh_pipeline = 0"
    by (simp add: fresh_pipeline_def LightPipeline_def)
  have room: "\<not> shouldFlush 6 (setNormalMapRotation 0 fresh_pipeline)"
    using setNormalMapRotation_uploads(1) [OF start]
    by (simp add: shouldFlush_def setNormalMapRotation_def Let_def fresh_pipeline_def
        LightPipeline_def base_pipeline_def flush_def)
  show "vertexCount (run scenario_C fresh_pipeline) = 6"
    using room setNormalMapRotation_uploads(1) [OF start] by (simp add: scenario_C_def)
  show "currentNormalMapRotation (run scenario_C fresh_pipeline) = Some 0"
    using setNormalMapRotation_uploads(2) [OF start] by (simp add: scenario_C_def)
qed

text \<open>
  C5: in a pipeline reached from the constructor by any calls, when vertices are pending
  and the angle is not the one last applied, \<^verbatim>\<open>setNormalMapRotation\<close> makes two calls, in
  this order: the draw of the pending vertices, and the upload of the matrix it has just
  stored. The rows of that matrix are those of the rotation by the negative angle with 1
  as the last diagonal entry: the identity for the angle 0, and
  \<open>[[0, 1, 0], [-1, 0, 0], [0, 0, 1]]\<close> for a quarter turn.
\<close>

theorem setNormalMapRotation_flushes_then_uploads:
  assumes "s = run calls (LightPipeline base)"
    and "vertexCount s > 0"
    and "currentNormalMapRotation s \<noteq> Some rotation"
  shows "let s' = setNormalMapRotation rotation s
         in gl_calls (gl s') = gl_calls (gl s) @
              [DrawArrays (pending s),
               SetMatrix3 UInverseRotationMatrix False (inverseRotationMatrix s')]
          \<and> length (inverseRotationMatrix s') = 9
          \<and> mat3_rows (inverseRotationMatrix s') = spec_inverse_rotation rotation
          \<and> (if rotation = 0
              then mat3_rows (inverseRotationMatrix s') = [[1, 0, 0], [0, 1, 0], [0, 0, 1]]
              else if rotation = pi / 2
              then mat3_rows (inverseRotationMatrix s') = [[0, 1, 0], [-1, 0, 0], [0, 0, 1]]
              else True)
          \<and> vertexCount s' = 0
          \<and> currentNormalMapRotation s' = Some rotation"
proof -
  have "homogeneous (inverseRotationMatrix s)"
    unfolding assms(1) using homogeneous_LightPipeline by (rule homogeneous_run)
  then show ?thesis
    using assms(2,3) by (rule rotation_change)
qed

theorem setNormalMapRotation_flushes_then_uploads_witness:
  "vertexCount (run scenario_C fresh_pipeline) > 0
   \<and> currentNormalMapRotation (run scenario_C fresh_pipeline) \<noteq> Some (pi / 2)
   \<and> new_calls (run scenario_C fresh_pipeline)
        (setNormalMapRotation (pi / 2) (run scenario_C fresh_pipeline)) =
        [DrawArrays (pending (run scenario_C fresh_pipeline)),
         SetMatrix3 UInverseRotationMatrix False
           (inverseRotationMatrix (setNormalMapRotation (pi / 2) (run scenario_C fresh_pipeline)))]
   \<and> mat3_rows (inverseRotationMatrix
        (setNormalMapRotation (pi / 2) (run scenario_C fresh_pipeline)))
        = [[0, 1, 0], [-1, 0, 0], [0, 0, 1]]"
proof -
  have some: "vertexCount (run scenario_C fresh_pipeline) > 0"
    by (simp add: scenario_C_state)
  have other: "currentNormalMapRotation (run scenario_C fresh_pipeline) \<noteq> Some (pi / 2)"
    by (simp add: scenario_C_state)
  have reached: "run scenario_C fresh_pipeline = run scenario_C (LightPipeline (base_pipeline 12 600))"
    by (simp add: fresh_pipeline_def)
  show ?thesis
    using setNormalMapRotation_flushes_then_uploads [OF reached some other] some other
    by (simp add: Let_def new_calls_def quarter_turn)
qed

theorem setNormalMapRotation_twice_witness:
  "vertexCount (run scenario_C fresh_pipeline) > 0
   \<and> vertexCount (setNormalMapRotation (pi / 2) (run scenario_C fresh_pipeline)) = 0
   \<and> rotation_uploads (setNormalMapRotation (pi / 2)
        (setNormalMapRotation (pi / 2) (run scenario_C fresh_pipeline)))
       = rotation_uploads (run scenario_C fresh_pipeline) + 2"
proof -
  let ?s = "run scenario_C fresh_pipeline"
  have other: "currentNormalMapRotation ?s \<noteq> Some (pi / 2) \<or> vertexCount ?s = 0"
    by (simp add: scenario_C_state)
  have some: "vertexCount ?s > 0"
    by (simp add: scenario_C_state)
  note empty = setNormalMapRotation_uploads(1) [OF other]
  then have "\<not> vertexCount (setNormalMapRotation (pi / 2) ?s) > 0"
    by simp
  with setNormalMapRotation_twice [of "pi / 2" ?s]
  have "rotation_uploads (setNormalMapRotation (pi / 2) (setNormalMapRotation (pi / 2) ?s))
        = rotation_uploads ?s + 2"
    unfolding Let_def by metis
  then show ?thesis
    using some empty by blast
qed

lemma stride_batchVert [simp]:
  "vertexComponentCount (batchVert x y lightX lightY radius r g b a s) = vertexComponentCount s"
  by (simp add: batchVert_def Let_def)

lemma vertex_batchVert:
  assumes stride: "vertexComponentCount s = 9"
    and inside: "v * 9 + 9 \<le> length (vertexViewF32 s)"
  shows "vertex (batchVert x y lightX lightY radius r g b a s) v =
         (if v = vertexCount s then [x, y, lightX, lightY, radius, r, g, b, a] else vertex s v)"
proof (rule nth_equalityI)
  show "length (vertex (batchVert x y lightX lightY radius r g b a s) v) =
        length (if v = vertexCount s then [x, y, lightX, lightY, radius, r, g, b, a]
                else vertex s v)"
    using inside by (simp add: vertex_def stride)
next
  fix i assume "i < length (vertex (batchVert x y lightX lightY radius r g b a s) v)"
  then have i: "i < 9"
    by (simp add: vertex_def)
  then have slot: "v * 9 + i < length (vertexViewF32 s)"
    using inside by simp
  have here: "(vertexCount s * 9 \<le> v * 9 + i \<and> v * 9 + i < vertexCount s * 9 + 9)
              = (v = vertexCount s)"
    using i by auto
  have "vertex (batchVert x y lightX lightY radius r g b a s) v ! i
        = vertexViewF32 (batchVert x y lightX lightY radius r g b a s) ! (v * 9 + i)"
    using i inside by (simp add: vertex_def stride)
  also have "\<dots> = (if v = vertexCount s
                   then [x, y, lightX, lightY, radius, r, g, b, a] ! i
                   else vertexViewF32 s ! (v * 9 + i))"
    unfolding batchVert_slot [OF slot] stride here by simp
  also have "\<dots> = (if v = vertexCount s then [x, y, lightX, lightY, radius, r, g, b, a]
                   else vertex s v) ! i"
    using i inside by (simp add: vertex_def stride)
  finally show "vertex (batchVert x y lightX lightY radius r g b a s) v ! i =
        (if v = vertexCount s then [x, y, lightX, lightY, radius, r, g, b, a] else vertex s v) ! i" .
qed

text \<open>The vertices of the call in the buffer after six calls of \<^verbatim>\<open>batchVert\<close>.\<close>

lemma vertex_six_batchVert:
  assumes stride: "vertexComponentCount s = 9"
    and inside: "(vertexCount s + k) * 9 + 9 \<le> length (vertexViewF32 s)"
    and k: "k < 6"
  shows "vertex
          (batchVert x5 y5 lightX lightY radius r g b a
            (batchVert x4 y4 lightX lightY radius r g b a
              (batchVert x3 y3 lightX lightY radius r g b a
                (batchVert x2 y2 lightX lightY radius r g b a
                  (batchVert x1 y1 lightX lightY radius r g b a
                    (batchVert x0 y0 lightX lightY radius r g b a s))))))
          (vertexCount s + k)
         = [[x0, y0, lightX, lightY, radius, r, g, b, a],
            [x1, y1, lightX, lightY, radius, r, g, b, a],
            [x2, y2, lightX, lightY, radius, r, g, b, a],
            [x3, y3, lightX, lightY, radius, r, g, b, a],
            [x4, y4, lightX, lightY, radius, r, g, b, a],
            [x5, y5, lightX, lightY, radius, r, g, b, a]] ! k"
proof -
  have "k = 0 \<or> k = 1 \<or> k = 2 \<or> k = 3 \<or> k = 4 \<or> k = 5"
    using k by arith
  then show ?thesis
    using inside by (elim disjE) (simp_all add: vertex_batchVert stride)
qed

text \<open>
  C3: in a buffer of the declared layout, each of the six vertices of a call of
  \<^verbatim>\<open>batchLight\<close>, the last six of the batch after the call, that lies within the buffer
  ends with the four fields red, green and blue, the light's colour times its intensity,
  and alpha, the camera's alpha times the light's, whatever the corners and the light
  position are. All six lie within the buffer when it holds at least one quad.
\<close>

theorem batchLight_premultiplied_colour:
  assumes "buffer_ok s" and "k < 6"
  shows "let s' = batchLight light camera x0 y0 x1 y1 x2 y2 x3 y3 lightX lightY s;
             v = vertexCount s' - 6 + k
         in (v < vertexCapacity s \<longrightarrow>
               drop 5 (vertex s' v) =
                 [color_r (light_color light) * light_intensity light,
                  color_g (light_color light) * light_intensity light,
                  color_b (light_color light) * light_intensity light,
                  camera_alpha camera * light_alpha light])
          \<and> (6 \<le> vertexCapacity s \<longrightarrow> v < vertexCapacity s)"
proof -
  define s0 where "s0 = (if shouldFlush 6 s then flush s else s)"
  define s' where "s' = batchLight light camera x0 y0 x1 y1 x2 y2 x3 y3 lightX lightY s"
  define red where "red = color_r (light_color light) * light_intensity light"
  define green where "green = color_g (light_color light) * light_intensity light"
  define blue where "blue = color_b (light_color light) * light_intensity light"
  define alpha where "alpha = camera_alpha camera * light_alpha light"
  have s': "s' =
      batchVert x3 y3 lightX lightY (light_radius light) red green blue alpha
        (batchVert x2 y2 lightX lightY (light_radius light) red green blue alpha
          (batchVert x0 y0 lightX lightY (light_radius light) red green blue alpha
            (batchVert x2 y2 lightX lightY (light_radius light) red green blue alpha
              (batchVert x1 y1 lightX lightY (light_radius light) red green blue alpha
                (batchVert x0 y0 lightX lightY (light_radius light) red green blue alpha s0)))))"
    unfolding s'_def batchLight_def Let_def s0_def red_def green_def blue_def alpha_def ..
  have stride: "vertexComponentCount s0 = 9"
    using stride_nine [OF assms(1)] by (simp add: s0_def flush_def)
  have len: "length (vertexViewF32 s0) = vertexCapacity s * 9"
    using buffer_length [OF assms(1)] by (simp add: s0_def flush_def)
  have count: "vertexCount s' - 6 + k = vertexCount s0 + k"
    unfolding s' by simp
  have colour: "drop 5 (vertex s' (vertexCount s0 + k)) = [red, green, blue, alpha]"
    if "vertexCount s0 + k < vertexCapacity s"
  proof -
    have inside: "(vertexCount s0 + k) * 9 + 9 \<le> length (vertexViewF32 s0)"
      unfolding len using that by simp
    have written: "vertex s' (vertexCount s0 + k) =
         [[x0, y0, lightX, lightY, light_radius light, red, green, blue, alpha],
          [x1, y1, lightX, lightY, light_radius light, red, green, blue, alpha],
          [x2, y2, lightX, lightY, light_radius light, red, green, blue, alpha],
          [x0, y0, lightX, lightY, light_radius light, red, green, blue, alpha],
          [x2, y2, lightX, lightY, light_radius light, red, green, blue, alpha],
          [x3, y3, lightX, lightY, light_radius light, red, green, blue, alpha]] ! k"
      unfolding s' using stride inside assms(2) by (rule vertex_six_batchVert)
    have "k = 0 \<or> k = 1 \<or> k = 2 \<or> k = 3 \<or> k = 4 \<or> k = 5"
      using assms(2) by arith
    then show ?thesis
      unfolding written by (elim disjE) simp_all
  qed
  have "vertexCount s0 + k < vertexCapacity s" if "6 \<le> vertexCapacity s"
    using that assms(2) by (auto simp add: s0_def shouldFlush_def flush_def)
  then show ?thesis
    unfolding Let_def s'_def [symmetric] count
    using colour by (simp add: red_def green_def blue_def alpha_def)
qed

theorem batchLight_premultiplied_colour_witness:
  "buffer_ok (base_pipeline 6 (0::int))
   \<and> (3::nat) < 6
   \<and> vertexCount (batchLightQuad sample_quad (base_pipeline 6 0)) - 6 + 3
       < vertexCapacity (base_pipeline 6 (0::int))
   \<and> drop 5 (vertex (batchLightQuad sample_quad (base_pipeline 6 0)) 3) = [14, 21, 35, 143]"
proof -
  let ?s = "base_pipeline 6 (0::int)"
  have ok: "buffer_ok ?s"
    by (simp add: buffer_ok_def base_pipeline_def)
  have count: "vertexCount (batchLightQuad sample_quad ?s) = 6"
    by (simp add: sample_quad_def batchLight_def Let_def base_pipeline_def shouldFlush_def)
  have inside: "vertexCount (batchLightQuad sample_quad ?s) - 6 + 3 < vertexCapacity ?s"
    using count by (simp add: base_pipeline_def)
  have three: "(3::nat) < 6"
    by simp
  show ?thesis
    using batchLight_premultiplied_colour [OF ok three, of sample_light sample_camera
        0 0 1 0 1 1 0 1 40 60] ok count inside
    by (simp add: Let_def sample_quad_def sample_light_def sample_camera_def)
qed

end
